theory Spec2Isabelle
  imports Main "HOL-Library.Multiset"
begin

section \<open>The IR entities the enum upcast analysis reads\<close>

text \<open>
  The analysis of \<^verbatim>\<open>opt/optimize_enums/EnumUpcastAnalysis.cpp\<close> decides which candidate
  enums may be replaced by boxed integers. It reads classes, methods, fields, protos and
  instructions through the IR layer. A \<^verbatim>\<open>DexType*\<close> is an interned type descriptor,
  so a type is its descriptor string and pointer equality is equality of descriptors.
\<close>

type_synonym DexType = string

type_synonym Register = nat

text \<open>Every \<^verbatim>\<open>always_assert\<close> of the source aborts the pass; so does an IR accessor
  that is called on an instruction without the operand it asks for.\<close>

datatype error = AssertionFailure | InvalidAccess

definition and_then :: "error + 'a \<Rightarrow> ('a \<Rightarrow> error + 'b) \<Rightarrow> error + 'b" where
  "and_then r k = (case r of Inl e \<Rightarrow> Inl e | Inr x \<Rightarrow> k x)"

record DexProto =
  get_rtype :: DexType
  get_args :: "DexType list"

record DexFieldRef =
  field_class :: DexType
  field_type :: DexType

record DexMethodRef =
  method_class :: DexType
  method_name :: string
  get_proto :: DexProto
  is_def :: bool
  is_static :: bool

subsection \<open>ReferencedState (libredex/ReferencedState.h)\<close>

text \<open>The flags of \<^verbatim>\<open>InnerStruct\<close> that \<^verbatim>\<open>can_rename\<close> reads.\<close>

record ReferencedState =
  m_by_string :: bool
  m_by_resources :: bool
  m_keep :: bool
  m_set_allowshrinking :: bool
  m_unset_allowshrinking :: bool
  m_set_allowobfuscation :: bool
  m_unset_allowobfuscation :: bool
  m_keep_name :: bool

definition allowshrinking :: "ReferencedState \<Rightarrow> bool" where
  "allowshrinking rs =
     (\<not> m_unset_allowshrinking rs \<and> m_set_allowshrinking rs \<and> \<not> m_by_resources rs)"

definition allowobfuscation :: "ReferencedState \<Rightarrow> bool" where
  "allowobfuscation rs =
     (\<not> m_unset_allowobfuscation rs \<and> m_set_allowobfuscation rs \<and> \<not> m_by_resources rs)"

definition rstate_can_rename :: "ReferencedState \<Rightarrow> bool" where
  "rstate_can_rename rs =
     (\<not> m_keep_name rs \<and> \<not> m_by_string rs \<and> (\<not> m_keep rs \<or> allowobfuscation rs) \<and>
      \<not> allowshrinking rs)"

subsection \<open>Instructions, code, members and classes\<close>

datatype IROpcode =
    OPCODE_CHECK_CAST
  | OPCODE_CONST_CLASS
  | OPCODE_INVOKE_INTERFACE
  | OPCODE_INVOKE_SUPER
  | OPCODE_INVOKE_DIRECT
  | OPCODE_INVOKE_STATIC
  | OPCODE_INVOKE_VIRTUAL
  | OPCODE_RETURN_OBJECT
  | OPCODE_APUT_OBJECT
  | OPCODE_IGET_OBJECT
  | OPCODE_IPUT_OBJECT
  | OPCODE_SPUT_OBJECT
  | IOPCODE_LOAD_PARAM
  | IOPCODE_LOAD_PARAM_OBJECT
  | IOPCODE_LOAD_PARAM_WIDE
  | OPCODE_MOVE_OBJECT
  | IOPCODE_MOVE_RESULT_PSEUDO_OBJECT
  | OPCODE_MOVE_RESULT_OBJECT
  | OPCODE_SGET_OBJECT
  | OPCODE_AGET_OBJECT
  | OPCODE_NEW_ARRAY
  | OPCODE_NEW_INSTANCE
  | OPCODE_FILLED_NEW_ARRAY
  | OPCODE_CONST_STRING
  | OPCODE_OTHER nat

text \<open>
  An instruction as the analysis queries it: \<^verbatim>\<open>opcode()\<close>, \<^verbatim>\<open>srcs_size()\<close> and
  \<^verbatim>\<open>src(i)\<close>, \<^verbatim>\<open>dests_size()\<close> and \<^verbatim>\<open>dest()\<close>, \<^verbatim>\<open>dest_is_wide()\<close>,
  \<^verbatim>\<open>has_move_result_pseudo()\<close>, and the type, field and method operands. The opcode does
  not fix which operands are present here: that is well-formedness of the IR, stated as a
  hypothesis where a theorem needs it.
\<close>

record IRInstruction =
  opcode :: IROpcode
  srcs :: "Register list"
  insn_dest :: "Register option"
  dest_is_wide :: bool
  has_move_result_pseudo :: bool
  insn_type :: "DexType option"
  insn_field :: "DexFieldRef option"
  insn_method :: "DexMethodRef option"

definition srcs_size :: "IRInstruction \<Rightarrow> nat" where
  "srcs_size insn = length (srcs insn)"

definition src :: "IRInstruction \<Rightarrow> nat \<Rightarrow> error + Register" where
  "src insn i = (if i < length (srcs insn) then Inr (srcs insn ! i) else Inl InvalidAccess)"

definition dests_size :: "IRInstruction \<Rightarrow> nat" where
  "dests_size insn = (case insn_dest insn of None \<Rightarrow> 0 | Some _ \<Rightarrow> 1)"

definition dest :: "IRInstruction \<Rightarrow> error + Register" where
  "dest insn = (case insn_dest insn of None \<Rightarrow> Inl InvalidAccess | Some r \<Rightarrow> Inr r)"

definition has_type :: "IRInstruction \<Rightarrow> bool" where
  "has_type insn = (insn_type insn \<noteq> None)"

definition get_type :: "IRInstruction \<Rightarrow> error + DexType" where
  "get_type insn = (case insn_type insn of None \<Rightarrow> Inl InvalidAccess | Some t \<Rightarrow> Inr t)"

definition get_field :: "IRInstruction \<Rightarrow> error + DexFieldRef" where
  "get_field insn = (case insn_field insn of None \<Rightarrow> Inl InvalidAccess | Some f \<Rightarrow> Inr f)"

definition has_method :: "IRInstruction \<Rightarrow> bool" where
  "has_method insn = (insn_method insn \<noteq> None)"

definition get_method :: "IRInstruction \<Rightarrow> error + DexMethodRef" where
  "get_method insn = (case insn_method insn of None \<Rightarrow> Inl InvalidAccess | Some m \<Rightarrow> Inr m)"

text \<open>Modelled from the spec: \<^verbatim>\<open>is_invoke\<close> is declared outside the source files
  at hand; the invocations are \<open>invoke-{static,super,direct,interface,virtual}\<close>.\<close>

definition is_invoke :: "IROpcode \<Rightarrow> bool" where
  "is_invoke op =
     (op = OPCODE_INVOKE_STATIC \<or> op = OPCODE_INVOKE_SUPER \<or> op = OPCODE_INVOKE_DIRECT \<or>
      op = OPCODE_INVOKE_INTERFACE \<or> op = OPCODE_INVOKE_VIRTUAL)"

text \<open>
  The code of a method: its leading load-param instructions
  (\<^verbatim>\<open>get_param_instructions()\<close>) and the blocks of the control-flow graph that
  \<^verbatim>\<open>build_cfg\<close> makes of it, each with its instructions in order.
\<close>

record IRCode =
  get_param_instructions :: "IRInstruction list"
  cfg_blocks :: "IRInstruction list list"

text \<open>
  A method definition is a method reference with its code (absent for abstract and native
  methods), its \<^verbatim>\<open>rstate\<close> and the types that \<^verbatim>\<open>method->gather_types\<close> collects from
  the instructions; a field definition is a field reference with its \<^verbatim>\<open>rstate\<close>.
\<close>

record DexMethod = DexMethodRef +
  get_code :: "IRCode option"
  method_rstate :: ReferencedState
  method_gather_types :: "DexType list"

record DexField = DexFieldRef +
  field_rstate :: ReferencedState

record DexClass =
  is_enum :: bool
  get_fields :: "DexField list"
  get_methods :: "DexMethod list"

text \<open>Modelled from the spec: \<^verbatim>\<open>can_rename\<close> of a method is declared outside the
  source files at hand; it asks the \<^verbatim>\<open>rstate\<close> of the method.\<close>

definition can_rename_method :: "DexMethod \<Rightarrow> bool" where
  "can_rename_method m = rstate_can_rename (method_rstate m)"

text \<open>Modelled from the spec: \<^verbatim>\<open>can_rename\<close> of a field is declared outside the
  source files at hand; it asks the \<^verbatim>\<open>rstate\<close> of the field.\<close>

definition can_rename_field :: "DexField \<Rightarrow> bool" where
  "can_rename_field f = rstate_can_rename (field_rstate f)"

text \<open>Modelled from the spec: \<^verbatim>\<open>DexProto::gather_types\<close> is declared outside the
  source files at hand; it yields the types the proto names.\<close>

definition proto_gather_types :: "DexProto \<Rightarrow> DexType list" where
  "proto_gather_types p = get_args p @ [get_rtype p]"

text \<open>Modelled from the spec: \<^verbatim>\<open>is_clinit\<close> is declared outside the source files at
  hand; it recognises \<open><clinit>\<close> by name.\<close>

definition is_clinit :: "'a DexMethodRef_scheme \<Rightarrow> bool" where
  "is_clinit m = (method_name m = ''<clinit>'')"

text \<open>Modelled from the spec: \<^verbatim>\<open>is_init\<close> is declared outside the source files at
  hand; it recognises \<open><init>\<close> by name.\<close>

definition is_init :: "'a DexMethodRef_scheme \<Rightarrow> bool" where
  "is_init m = (method_name m = ''<init>'')"

text \<open>Modelled from the spec: \<^verbatim>\<open>signatures_match\<close> is declared outside the source
  files at hand; two methods match when name and proto agree, whatever the class.\<close>

definition signatures_match :: "'a DexMethodRef_scheme \<Rightarrow> 'b DexMethodRef_scheme \<Rightarrow> bool" where
  "signatures_match a b = (method_name a = method_name b \<and> get_proto a = get_proto b)"

text \<open>
  The queries on types and the class table that the IR layer answers; nothing in the
  source files at hand defines them, so every definition below takes them as a parameter and
  every theorem holds for all of them. \<open>type_class_of\<close> is the source's
  \<^verbatim>\<open>type_class\<close>; \<open>get_array_type\<close> and
  \<open>get_array_component_type\<close> return \<open>None\<close> where the source returns a null pointer.
\<close>

record IRFacade =
  is_primitive :: "DexType \<Rightarrow> bool"
  is_array :: "DexType \<Rightarrow> bool"
  get_array_type :: "DexType \<Rightarrow> DexType option"
  get_array_component_type :: "DexType \<Rightarrow> DexType option"
  type_class_of :: "DexType \<Rightarrow> DexClass option"
  get_enum_type :: DexType
  get_class_type :: DexType
  get_string_type :: DexType
  RESULT_REGISTER :: Register

section \<open>The abstract domain\<close>

text \<open>
  \<^verbatim>\<open>EnumTypes\<close> and \<^verbatim>\<open>EnumTypeEnvironment\<close> are declared in
  \<^verbatim>\<open>EnumUpcastAnalysis.h\<close>, which is not among the source files at hand, so the domain
  follows its description in the spec.
\<close>

text \<open>Modelled from the spec: the declaration of \<^verbatim>\<open>EnumTypes\<close> is missing. An element
  is bottom or a finite set of types; top is never built by the transfer function and is
  left out, as the spec allows.\<close>

datatype EnumTypes = Bottom | Value "DexType list"

text \<open>Modelled from the spec: the default constructor \<^verbatim>\<open>EnumTypes()\<close> is missing; the
  transfer function binds it where the spec says bottom.\<close>

definition EnumTypes_default :: EnumTypes where
  "EnumTypes_default = Bottom"

text \<open>Modelled from the spec: the constructor \<^verbatim>\<open>EnumTypes(t)\<close> is missing; it is
  \<open>of(t)\<close>, the singleton.\<close>

definition EnumTypes_of :: "DexType \<Rightarrow> EnumTypes" where
  "EnumTypes_of t = Value [t]"

text \<open>Modelled from the spec: \<^verbatim>\<open>elements()\<close> is missing; it yields the enumerated
  types, none for bottom.\<close>

fun elements :: "EnumTypes \<Rightarrow> DexType list" where
  "elements Bottom = []"
| "elements (Value ts) = ts"

text \<open>Modelled from the spec: \<^verbatim>\<open>is_value()\<close> is missing; it holds for every element
  but bottom.\<close>

fun is_value :: "EnumTypes \<Rightarrow> bool" where
  "is_value Bottom = False"
| "is_value (Value ts) = True"

text \<open>Modelled from the spec: \<^verbatim>\<open>add(t)\<close> is missing; it yields the set with \<open>t\<close>
  inserted.\<close>

fun add :: "DexType \<Rightarrow> EnumTypes \<Rightarrow> EnumTypes" where
  "add t Bottom = Value [t]"
| "add t (Value ts) = Value (List.insert t ts)"

text \<open>Modelled from the spec: the declaration of \<^verbatim>\<open>EnumTypeEnvironment\<close> is missing.
  An environment maps registers to \<open>EnumTypes\<close>, a missing register is bottom, and a
  whole environment can be bottom (the block is unreachable).\<close>

datatype EnumTypeEnvironment = BottomEnv | Env "Register \<Rightarrow> EnumTypes"

text \<open>Modelled from the spec: the default constructor of the environment is missing; it
  binds no register.\<close>

definition env_default :: EnumTypeEnvironment where
  "env_default = Env (\<lambda>r. Bottom)"

text \<open>Modelled from the spec: \<^verbatim>\<open>is_bottom()\<close> is missing.\<close>

fun is_bottom :: "EnumTypeEnvironment \<Rightarrow> bool" where
  "is_bottom BottomEnv = True"
| "is_bottom (Env f) = False"

text \<open>Modelled from the spec: \<^verbatim>\<open>get(r)\<close> is missing; an unset register reads as
  bottom.\<close>

fun env_get :: "EnumTypeEnvironment \<Rightarrow> Register \<Rightarrow> EnumTypes" where
  "env_get BottomEnv r = Bottom"
| "env_get (Env f) r = f r"

text \<open>Modelled from the spec: \<^verbatim>\<open>set(r, s)\<close> is missing; it binds the register in an
  environment that is not bottom.\<close>

fun env_set :: "EnumTypeEnvironment \<Rightarrow> Register \<Rightarrow> EnumTypes \<Rightarrow> EnumTypeEnvironment" where
  "env_set BottomEnv r v = BottomEnv"
| "env_set (Env f) r v = Env (f(r := v))"

section \<open>The upcast detector\<close>

text \<open>The reason is only traced by the source; it is kept as an argument so that the
  calls read as they are written.\<close>

datatype Reason =
    UNKNOWN
  | CAST_WHEN_RETURN
  | CAST_THIS_POINTER
  | CAST_PARAMETER
  | USED_AS_CLASS_OBJECT
  | CAST_CHECK_CAST
  | CAST_ISPUT_OBJECT
  | CAST_APUT_OBJECT
  | MULTI_ENUM_TYPES
  | UNSAFE_INVOCATION_ON_CANDIDATE_ENUM

text \<open>A \<^verbatim>\<open>std::unordered_set<DexType*>\<close> is a list without duplicates: \<open>List.insert\<close>
  is its \<^verbatim>\<open>insert\<close>, \<open>length\<close> its \<^verbatim>\<open>size()\<close>.\<close>

definition discard_primitives :: "IRFacade \<Rightarrow> EnumTypes \<Rightarrow> DexType list" where
  "discard_primitives ir types =
     fold (\<lambda>type res. if \<not> is_primitive ir type then List.insert type res else res)
       (elements types) []"

definition reject :: "DexType set \<Rightarrow> DexType \<Rightarrow> DexType set \<Rightarrow> Reason \<Rightarrow> DexType set" where
  "reject candidate_enums type rejected_enums reason =
     (if type \<in> candidate_enums then insert type rejected_enums else rejected_enums)"

definition reject_set :: "DexType set \<Rightarrow> DexType list \<Rightarrow> DexType set \<Rightarrow> Reason \<Rightarrow> DexType set" where
  "reject_set candidate_enums types rejected_enums reason =
     fold (\<lambda>type rej. reject candidate_enums type rej reason) types rejected_enums"

definition reject_types :: "DexType set \<Rightarrow> EnumTypes \<Rightarrow> DexType set \<Rightarrow> Reason \<Rightarrow> DexType set" where
  "reject_types candidate_enums types rejected_enums reason =
     fold (\<lambda>type rej. reject candidate_enums type rej reason) (elements types) rejected_enums"

definition reject_if_inconsistent ::
  "IRFacade \<Rightarrow> DexType set \<Rightarrow> EnumTypes \<Rightarrow> DexType \<Rightarrow> DexType set \<Rightarrow> Reason \<Rightarrow> DexType set" where
  "reject_if_inconsistent ir candidate_enums types required_type rejected_enums reason =
     (if required_type \<in> candidate_enums then
        (case fold (\<lambda>possible_type (need_delete, rej).
                      if \<not> is_primitive ir possible_type \<and> possible_type \<noteq> required_type
                      then (True, reject candidate_enums possible_type rej reason)
                      else (need_delete, rej))
                (elements types) (False, rejected_enums) of
           (need_delete, rej) \<Rightarrow>
             if need_delete then reject candidate_enums required_type rej reason else rej)
      else
        fold (\<lambda>possible_type rej. reject candidate_enums possible_type rej reason)
          (elements types) rejected_enums)"

definition process_return_object ::
  "IRFacade \<Rightarrow> DexType set \<Rightarrow> 'a DexMethodRef_scheme \<Rightarrow> IRInstruction \<Rightarrow>
   EnumTypeEnvironment \<Rightarrow> DexType set \<Rightarrow> error + DexType set" where
  "process_return_object ir candidate_enums m_method insn env rejected_enums =
     (let return_type = get_rtype (get_proto m_method) in
      and_then (src insn 0) (\<lambda>r.
        if \<not> is_value (env_get env r) then Inl AssertionFailure
        else Inr (reject_if_inconsistent ir candidate_enums (env_get env r) return_type
                    rejected_enums CAST_WHEN_RETURN)))"

definition process_isput_object ::
  "IRFacade \<Rightarrow> DexType set \<Rightarrow> IRInstruction \<Rightarrow> EnumTypeEnvironment \<Rightarrow> DexType set \<Rightarrow>
   error + DexType set" where
  "process_isput_object ir candidate_enums insn env rejected_enums =
     and_then (src insn 0) (\<lambda>arg_reg.
     and_then (get_field insn) (\<lambda>field.
       Inr (reject_if_inconsistent ir candidate_enums (env_get env arg_reg) (field_type field)
              rejected_enums CAST_ISPUT_OBJECT)))"

definition acceptable_elem_types_of :: "IRFacade \<Rightarrow> EnumTypes \<Rightarrow> DexType list" where
  "acceptable_elem_types_of ir array_types =
     fold (\<lambda>type acc.
             case get_array_type ir type of
               None \<Rightarrow> acc
             | Some elem \<Rightarrow> if \<not> is_primitive ir elem then List.insert elem acc else acc)
       (elements array_types) []"

definition process_aput_object ::
  "IRFacade \<Rightarrow> DexType set \<Rightarrow> IRInstruction \<Rightarrow> EnumTypeEnvironment \<Rightarrow> DexType set \<Rightarrow>
   error + DexType set" where
  "process_aput_object ir candidate_enums insn env rejected_enums =
     and_then (src insn 1) (\<lambda>array_reg.
     and_then (src insn 0) (\<lambda>elem_reg.
       let array_types = env_get env array_reg;
           elem_types = env_get env elem_reg;
           acceptable_elem_types = acceptable_elem_types_of ir array_types
       in if length acceptable_elem_types > 1 then
            Inr (reject_set candidate_enums acceptable_elem_types
                   (reject_types candidate_enums elem_types rejected_enums CAST_APUT_OBJECT)
                   CAST_APUT_OBJECT)
          else if length acceptable_elem_types = 1 then
            Inr (reject_if_inconsistent ir candidate_enums elem_types (hd acceptable_elem_types)
                   rejected_enums CAST_APUT_OBJECT)
          else Inr rejected_enums))"

text \<open>
  The assertion on the number of sources is written over \<^verbatim>\<open>size_t\<close> in the source:
  \<^verbatim>\<open>args.size() == srcs_size() - 1\<close> wraps when there is no source and then holds for no
  list of arguments, so it is \<open>length args + 1 = srcs_size\<close>. After it the remaining
  sources and the arguments have the same length, and the loop pairs them in order.
\<close>

definition process_general_invocation ::
  "IRFacade \<Rightarrow> DexType set \<Rightarrow> IRInstruction \<Rightarrow> EnumTypeEnvironment \<Rightarrow> DexType set \<Rightarrow>
   error + DexType set" where
  "process_general_invocation ir candidate_enums insn env rejected_enums =
     (if \<not> has_method insn then Inl AssertionFailure
      else and_then (get_method insn) (\<lambda>method.
        let proto = get_proto method;
            container = method_class method;
            rej1 = (if opcode insn \<noteq> OPCODE_INVOKE_STATIC \<and> container \<in> candidate_enums
                    then reject candidate_enums container rejected_enums
                           UNSAFE_INVOCATION_ON_CANDIDATE_ENUM
                    else rejected_enums);
            args = get_args proto
        in if \<not> (length args = srcs_size insn \<or> length args + 1 = srcs_size insn)
           then Inl AssertionFailure
           else
             let has_this = (srcs_size insn = length args + 1);
                 rej2 = (if has_this
                         then reject_if_inconsistent ir candidate_enums
                                (env_get env (srcs insn ! 0)) container rej1 CAST_THIS_POINTER
                         else rej1);
                 arg_id = (if has_this then 1 else 0)
             in Inr (fold (\<lambda>(r, t) rej.
                             reject_if_inconsistent ir candidate_enums (env_get env r) t rej
                               CAST_PARAMETER)
                       (zip (drop arg_id (srcs insn)) args) rej2)))"

definition process_direct_invocation ::
  "IRFacade \<Rightarrow> DexType set \<Rightarrow> IRInstruction \<Rightarrow> EnumTypeEnvironment \<Rightarrow> DexType set \<Rightarrow>
   error + DexType set" where
  "process_direct_invocation ir candidate_enums insn env rejected_enums =
     (if opcode insn \<noteq> OPCODE_INVOKE_DIRECT then Inl AssertionFailure
      else and_then (get_method insn) (\<lambda>method.
        let container = method_class method
        in if container \<in> candidate_enums then Inl AssertionFailure
           else process_general_invocation ir candidate_enums insn env rejected_enums))"

definition is_static_method_on_enum_class :: "IRFacade \<Rightarrow> 'a DexMethodRef_scheme \<Rightarrow> bool" where
  "is_static_method_on_enum_class ir method =
     (if \<not> is_def method \<or> \<not> is_static method then False
      else (case type_class_of ir (method_class method) of
              None \<Rightarrow> False
            | Some container \<Rightarrow> is_enum container))"

definition is_enum_valueof :: "IRFacade \<Rightarrow> 'a DexMethodRef_scheme \<Rightarrow> bool" where
  "is_enum_valueof ir method =
     (if \<not> is_static_method_on_enum_class ir method \<or> method_name method \<noteq> ''valueOf''
      then False
      else let proto = get_proto method
           in if method_class method \<noteq> get_rtype proto then False
              else (case get_args proto of
                      [a] \<Rightarrow> a = get_string_type ir
                    | _ \<Rightarrow> False))"

definition is_enum_values :: "IRFacade \<Rightarrow> 'a DexMethodRef_scheme \<Rightarrow> bool" where
  "is_enum_values ir method =
     (if \<not> is_static_method_on_enum_class ir method \<or> method_name method \<noteq> ''values''
      then False
      else let proto = get_proto method
           in if length (get_args proto) \<noteq> 0 then False
              else get_array_component_type ir (get_rtype proto) = Some (method_class method))"

definition process_static_invocation ::
  "IRFacade \<Rightarrow> DexType set \<Rightarrow> IRInstruction \<Rightarrow> EnumTypeEnvironment \<Rightarrow> DexType set \<Rightarrow>
   error + DexType set" where
  "process_static_invocation ir candidate_enums insn env rejected_enums =
     (if opcode insn \<noteq> OPCODE_INVOKE_STATIC then Inl AssertionFailure
      else and_then (get_method insn) (\<lambda>method.
        let container = method_class method
        in if container \<in> candidate_enums \<and> (is_enum_values ir method \<or> is_enum_valueof ir method)
           then Inr rejected_enums
           else process_general_invocation ir candidate_enums insn env rejected_enums))"

text \<open>The method references the detector makes with \<^verbatim>\<open>DexMethod::make_method\<close>: the
  descriptor string split into class, name and proto.\<close>

definition make_method :: "DexType \<Rightarrow> string \<Rightarrow> DexType list \<Rightarrow> DexType \<Rightarrow> DexMethodRef" where
  "make_method cls name args rtype =
     \<lparr>method_class = cls, method_name = name,
      get_proto = \<lparr>get_rtype = rtype, get_args = args\<rparr>, is_def = False, is_static = False\<rparr>"

definition ENUM_EQUALS_METHOD :: DexMethodRef where
  "ENUM_EQUALS_METHOD = make_method ''Ljava/lang/Enum;'' ''equals'' [''Ljava/lang/Object;''] ''Z''"

definition ENUM_COMPARETO_METHOD :: DexMethodRef where
  "ENUM_COMPARETO_METHOD = make_method ''Ljava/lang/Enum;'' ''compareTo'' [''Ljava/lang/Enum;''] ''I''"

definition ENUM_TOSTRING_METHOD :: DexMethodRef where
  "ENUM_TOSTRING_METHOD = make_method ''Ljava/lang/Enum;'' ''toString'' [] ''Ljava/lang/String;''"

definition ENUM_NAME_METHOD :: DexMethodRef where
  "ENUM_NAME_METHOD = make_method ''Ljava/lang/Enum;'' ''name'' [] ''Ljava/lang/String;''"

definition ENUM_ORDINAL_METHOD :: DexMethodRef where
  "ENUM_ORDINAL_METHOD = make_method ''Ljava/lang/Enum;'' ''ordinal'' [] ''I''"

definition STRINGBUILDER_APPEND_METHOD :: DexMethodRef where
  "STRINGBUILDER_APPEND_METHOD =
     make_method ''Ljava/lang/StringBuilder;'' ''append'' [''Ljava/lang/Object;'']
       ''Ljava/lang/StringBuilder;''"

text \<open>Method references are interned: two pointers are equal when class, name and proto
  are.\<close>

definition same_method :: "'a DexMethodRef_scheme \<Rightarrow> 'b DexMethodRef_scheme \<Rightarrow> bool" where
  "same_method a b =
     (method_class a = method_class b \<and> method_name a = method_name b \<and> get_proto a = get_proto b)"

definition first_or_null :: "DexType list \<Rightarrow> DexType option" where
  "first_or_null ts = (case ts of [] \<Rightarrow> None | t # _ \<Rightarrow> Some t)"

definition process_virtual_invocation ::
  "IRFacade \<Rightarrow> DexType set \<Rightarrow> IRInstruction \<Rightarrow> EnumTypeEnvironment \<Rightarrow> DexType set \<Rightarrow>
   error + DexType set" where
  "process_virtual_invocation ir candidate_enums insn env rejected_enums =
     (if opcode insn \<noteq> OPCODE_INVOKE_VIRTUAL then Inl AssertionFailure
      else and_then (get_method insn) (\<lambda>method.
        let container = method_class method
        in if container = get_enum_type ir \<or> container \<in> candidate_enums then
             and_then (src insn 0) (\<lambda>a_reg.
               let a_types = env_get env a_reg;
                   this_types = discard_primitives ir a_types
               in if signatures_match method ENUM_EQUALS_METHOD \<or>
                     signatures_match method ENUM_COMPARETO_METHOD then
                    and_then (src insn 1) (\<lambda>b_reg.
                      let b_types = env_get env b_reg;
                          that_types = discard_primitives ir b_types;
                          this_type = first_or_null this_types;
                          that_type = first_or_null that_types
                      in if length this_types > 1 \<or> length that_types > 1 \<or>
                            (this_type \<noteq> None \<and> that_type \<noteq> None \<and> this_type \<noteq> that_type)
                         then Inr (reject_set candidate_enums that_types
                                     (reject_set candidate_enums this_types rejected_enums
                                        CAST_THIS_POINTER)
                                     CAST_PARAMETER)
                         else Inr rejected_enums)
                  else if signatures_match method ENUM_TOSTRING_METHOD \<or>
                          signatures_match method ENUM_NAME_METHOD \<or>
                          signatures_match method ENUM_ORDINAL_METHOD then
                    (if length this_types > 1
                     then Inr (reject_set candidate_enums this_types rejected_enums
                                 MULTI_ENUM_TYPES)
                     else Inr rejected_enums)
                  else process_general_invocation ir candidate_enums insn env rejected_enums)
           else if same_method method STRINGBUILDER_APPEND_METHOD then
             and_then (src insn 1) (\<lambda>b_reg.
               let b_types = env_get env b_reg;
                   that_types = discard_primitives ir b_types
               in if length that_types > 1
                  then Inr (reject_set candidate_enums that_types rejected_enums MULTI_ENUM_TYPES)
                  else Inr rejected_enums)
           else process_general_invocation ir candidate_enums insn env rejected_enums))"

definition process_instruction ::
  "IRFacade \<Rightarrow> DexType set \<Rightarrow> 'a DexMethodRef_scheme \<Rightarrow> IRInstruction \<Rightarrow>
   EnumTypeEnvironment \<Rightarrow> DexType set \<Rightarrow> error + DexType set" where
  "process_instruction ir candidate_enums m_method insn env rejected_enums =
     (case opcode insn of
        OPCODE_CHECK_CAST \<Rightarrow>
          and_then (src insn 0) (\<lambda>r.
          and_then (get_type insn) (\<lambda>t.
            Inr (reject_if_inconsistent ir candidate_enums (env_get env r) t rejected_enums
                   CAST_CHECK_CAST)))
      | OPCODE_CONST_CLASS \<Rightarrow>
          and_then (get_type insn) (\<lambda>t.
            Inr (reject candidate_enums t rejected_enums USED_AS_CLASS_OBJECT))
      | OPCODE_INVOKE_INTERFACE \<Rightarrow>
          process_general_invocation ir candidate_enums insn env rejected_enums
      | OPCODE_INVOKE_SUPER \<Rightarrow>
          process_general_invocation ir candidate_enums insn env rejected_enums
      | OPCODE_INVOKE_DIRECT \<Rightarrow>
          process_direct_invocation ir candidate_enums insn env rejected_enums
      | OPCODE_INVOKE_STATIC \<Rightarrow>
          process_static_invocation ir candidate_enums insn env rejected_enums
      | OPCODE_INVOKE_VIRTUAL \<Rightarrow>
          process_virtual_invocation ir candidate_enums insn env rejected_enums
      | OPCODE_RETURN_OBJECT \<Rightarrow>
          process_return_object ir candidate_enums m_method insn env rejected_enums
      | OPCODE_APUT_OBJECT \<Rightarrow>
          process_aput_object ir candidate_enums insn env rejected_enums
      | OPCODE_IGET_OBJECT \<Rightarrow>
          and_then (get_field insn) (\<lambda>field.
            if field_class field \<in> candidate_enums then Inl AssertionFailure
            else Inr rejected_enums)
      | OPCODE_IPUT_OBJECT \<Rightarrow>
          and_then (get_field insn) (\<lambda>field.
            if field_class field \<in> candidate_enums then Inl AssertionFailure
            else process_isput_object ir candidate_enums insn env rejected_enums)
      | OPCODE_SPUT_OBJECT \<Rightarrow>
          process_isput_object ir candidate_enums insn env rejected_enums
      | _ \<Rightarrow> Inr rejected_enums)"

section \<open>The transfer function and the initial environment\<close>

definition analyze_instruction ::
  "IRFacade \<Rightarrow> IRInstruction \<Rightarrow> EnumTypeEnvironment \<Rightarrow> error + EnumTypeEnvironment" where
  "analyze_instruction ir insn env =
     (let use_result = (is_invoke (opcode insn) \<or> has_move_result_pseudo insn) in
      if use_result \<or> dests_size insn > 0 then
        and_then (if use_result then Inr (RESULT_REGISTER ir) else dest insn) (\<lambda>d.
          let set_rtype = and_then (get_method insn) (\<lambda>m.
                            Inr (env_set env d (EnumTypes_of (get_rtype (get_proto m)))));
              copy_result = Inr (env_set env d (env_get env (RESULT_REGISTER ir)));
              set_field_type = and_then (get_field insn) (\<lambda>f.
                                 let type = field_type f
                                 in if \<not> is_primitive ir type
                                    then Inr (env_set env d (EnumTypes_of type))
                                    else Inr env)
          in case opcode insn of
               IOPCODE_LOAD_PARAM \<Rightarrow> Inr env
             | IOPCODE_LOAD_PARAM_OBJECT \<Rightarrow> Inr env
             | IOPCODE_LOAD_PARAM_WIDE \<Rightarrow> Inr env
             | OPCODE_MOVE_OBJECT \<Rightarrow>
                 and_then (src insn 0) (\<lambda>s. Inr (env_set env d (env_get env s)))
             | OPCODE_INVOKE_STATIC \<Rightarrow> set_rtype
             | OPCODE_INVOKE_SUPER \<Rightarrow> set_rtype
             | OPCODE_INVOKE_DIRECT \<Rightarrow> set_rtype
             | OPCODE_INVOKE_INTERFACE \<Rightarrow> set_rtype
             | OPCODE_INVOKE_VIRTUAL \<Rightarrow> set_rtype
             | OPCODE_CONST_CLASS \<Rightarrow> Inr (env_set env d (EnumTypes_of (get_class_type ir)))
             | OPCODE_CHECK_CAST \<Rightarrow>
                 and_then (get_type insn) (\<lambda>t. Inr (env_set env d (EnumTypes_of t)))
             | IOPCODE_MOVE_RESULT_PSEUDO_OBJECT \<Rightarrow> copy_result
             | OPCODE_MOVE_RESULT_OBJECT \<Rightarrow> copy_result
             | OPCODE_SGET_OBJECT \<Rightarrow> set_field_type
             | OPCODE_IGET_OBJECT \<Rightarrow> set_field_type
             | OPCODE_AGET_OBJECT \<Rightarrow>
                 and_then (src insn 0) (\<lambda>s.
                   let array_types = env_get env s;
                       types = fold (\<lambda>array_type types.
                                       case get_array_type ir array_type of
                                         None \<Rightarrow> types
                                       | Some type \<Rightarrow>
                                           if \<not> is_primitive ir type then add type types
                                           else types)
                                 (elements array_types) EnumTypes_default
                   in Inr (env_set env d types))
             | _ \<Rightarrow>
                 let env1 = (case insn_type insn of
                               Some t \<Rightarrow> env_set env d (EnumTypes_of t)
                             | None \<Rightarrow> env_set env d EnumTypes_default)
                 in Inr (if dests_size insn > 0 \<and> dest_is_wide insn
                         then env_set env1 (d + 1) EnumTypes_default
                         else env1))
      else Inr env)"

text \<open>The second part of \<^verbatim>\<open>gen_env\<close>: one load-param instruction per seeded type, in
  order.\<close>

fun set_params ::
  "(IRInstruction \<times> DexType) list \<Rightarrow> EnumTypeEnvironment \<Rightarrow> error + EnumTypeEnvironment" where
  "set_params [] env = Inr env"
| "set_params ((insn, t) # rest) env =
     and_then (dest insn) (\<lambda>d. set_params rest (env_set env d (EnumTypes_of t)))"

definition gen_env :: "IRFacade \<Rightarrow> DexMethod \<Rightarrow> error + EnumTypeEnvironment" where
  "gen_env ir method =
     (case get_code method of
        None \<Rightarrow> Inl InvalidAccess
      | Some c \<Rightarrow>
          let code = get_param_instructions c;
              args = get_args (get_proto method);
              has_this_pointer = (\<not> is_static method);
              load_param_inst_size = length code
          in if load_param_inst_size \<noteq> length args + (if has_this_pointer then 1 else 0)
             then Inl AssertionFailure
             else set_params
                    (zip code (if has_this_pointer then method_class method # args else args))
                    env_default)"

section \<open>Running the detector over a method\<close>

text \<open>
  The fixpoint engine is not among the source files at hand: the detector only asks it for
  the entry state of each block (\<^verbatim>\<open>get_entry_state_at\<close>), so the engine is a parameter
  that maps the code and the initial environment to the entry state of the block at each
  index, and every theorem holds whatever the engine answers.
\<close>

type_synonym EnumFixpointIterator = "IRCode \<Rightarrow> EnumTypeEnvironment \<Rightarrow> nat \<Rightarrow> EnumTypeEnvironment"

fun for_each :: "('a \<Rightarrow> 's \<Rightarrow> error + 's) \<Rightarrow> 'a list \<Rightarrow> 's \<Rightarrow> error + 's" where
  "for_each f [] s = Inr s"
| "for_each f (x # xs) s = and_then (f x s) (for_each f xs)"

fun run_block ::
  "IRFacade \<Rightarrow> DexType set \<Rightarrow> 'a DexMethodRef_scheme \<Rightarrow> IRInstruction list \<Rightarrow>
   EnumTypeEnvironment \<Rightarrow> DexType set \<Rightarrow> error + DexType set" where
  "run_block ir candidate_enums m_method [] env rejected_enums = Inr rejected_enums"
| "run_block ir candidate_enums m_method (insn # rest) env rejected_enums =
     and_then (analyze_instruction ir insn env) (\<lambda>env'.
     and_then (process_instruction ir candidate_enums m_method insn env' rejected_enums)
       (\<lambda>rej. run_block ir candidate_enums m_method rest env' rej))"

definition run ::
  "IRFacade \<Rightarrow> DexType set \<Rightarrow> 'a DexMethodRef_scheme \<Rightarrow> (nat \<Rightarrow> EnumTypeEnvironment) \<Rightarrow>
   IRInstruction list list \<Rightarrow> DexType set \<Rightarrow> error + DexType set" where
  "run ir candidate_enums m_method get_entry_state_at blocks rejected_enums =
     for_each (\<lambda>(b, block) rej.
                 let env = get_entry_state_at b
                 in if is_bottom env then Inr rej
                    else run_block ir candidate_enums m_method block env rej)
       (zip [0 ..< length blocks] blocks) rejected_enums"

text \<open>Lines 588 to 597 of the driver: the initial environment, the engine, the
  detector.\<close>

definition analyze_method ::
  "IRFacade \<Rightarrow> EnumFixpointIterator \<Rightarrow> DexType set \<Rightarrow> DexMethod \<Rightarrow> DexType set \<Rightarrow>
   error + DexType set" where
  "analyze_method ir engine candidate_enums method rejected_enums =
     and_then (gen_env ir method) (\<lambda>env.
       case get_code method of
         None \<Rightarrow> Inl InvalidAccess
       | Some code \<Rightarrow>
           run ir candidate_enums method (engine code env) (cfg_blocks code) rejected_enums)"

section \<open>The driver\<close>

text \<open>
  The two sets of \<^verbatim>\<open>reject_unsafe_enums\<close>. The walkers visit the fields and the
  methods of the classes in parallel; here they visit them one after the other, in the
  order of the list of classes, which is one of the schedules the source allows.
\<close>

record pass_state =
  candidates :: "DexType set"
  rejected :: "DexType set"

text \<open>The reduction of an array type to \<^verbatim>\<open>get_array_type\<close> of it, which the driver
  writes out in three places; on a null result no set contains the type.\<close>

definition strip_array :: "IRFacade \<Rightarrow> DexType \<Rightarrow> DexType option" where
  "strip_array ir type = (if is_array ir type then get_array_type ir type else Some type)"

definition need_analyze :: "IRFacade \<Rightarrow> DexMethod \<Rightarrow> DexType set \<Rightarrow> DexType set \<Rightarrow> bool" where
  "need_analyze ir method candidate_enums rejected_enums =
     (case get_code method of
        None \<Rightarrow> False
      | Some code \<Rightarrow>
          list_ex (\<lambda>t. case strip_array ir t of
                         None \<Rightarrow> False
                       | Some type \<Rightarrow> type \<in> candidate_enums \<and> type \<notin> rejected_enums)
            (proto_gather_types (get_proto method) @ method_gather_types method))"

definition is_generated_enum_method :: "IRFacade \<Rightarrow> pass_state \<Rightarrow> DexMethod \<Rightarrow> bool" where
  "is_generated_enum_method ir s method =
     (method_class method \<in> candidates s \<and> method_class method \<notin> rejected s \<and>
      (is_clinit method \<or> is_init method \<or> is_enum_values ir method \<or>
       is_enum_valueof ir method))"

definition field_step :: "IRFacade \<Rightarrow> DexField \<Rightarrow> pass_state \<Rightarrow> pass_state" where
  "field_step ir field s =
     (if field_class field \<in> candidates s then s
      else (case strip_array ir (field_type field) of
              None \<Rightarrow> s
            | Some type \<Rightarrow>
                if type \<in> candidates s \<and> type \<notin> rejected s
                then (if \<not> can_rename_field field
                      then s\<lparr>rejected := insert type (rejected s)\<rparr>
                      else s)
                else s))"

text \<open>Lines 568 to 582: the types of the proto of a method that cannot be renamed.\<close>

definition method_prefilter :: "IRFacade \<Rightarrow> DexMethod \<Rightarrow> pass_state \<Rightarrow> pass_state" where
  "method_prefilter ir method s =
     fold (\<lambda>t s.
             case strip_array ir t of
               None \<Rightarrow> s
             | Some type \<Rightarrow>
                 if type \<in> candidates s \<and> type \<notin> rejected s
                 then (if \<not> can_rename_method method
                       then s\<lparr>rejected := insert type (rejected s)\<rparr>
                       else s)
                 else s)
       (proto_gather_types (get_proto method)) s"

definition method_step ::
  "IRFacade \<Rightarrow> EnumFixpointIterator \<Rightarrow> DexMethod \<Rightarrow> pass_state \<Rightarrow> error + pass_state" where
  "method_step ir engine method s =
     (if is_generated_enum_method ir s method then Inr s
      else let s1 = method_prefilter ir method s
           in if \<not> need_analyze ir method (candidates s1) (rejected s1) then Inr s1
              else and_then (analyze_method ir engine (candidates s1) method (rejected s1))
                     (\<lambda>rej. Inr (s1\<lparr>rejected := rej\<rparr>)))"

definition walk_fields :: "DexClass list \<Rightarrow> DexField list" where
  "walk_fields classes = concat (map get_fields classes)"

definition walk_methods :: "DexClass list \<Rightarrow> DexMethod list" where
  "walk_methods classes = concat (map get_methods classes)"

text \<open>The pass up to the final loop: both walks, from an empty rejected set.\<close>

definition analysis_phase ::
  "IRFacade \<Rightarrow> EnumFixpointIterator \<Rightarrow> DexClass list \<Rightarrow> DexType set \<Rightarrow> error + pass_state" where
  "analysis_phase ir engine classes candidate_enums =
     (let s0 = \<lparr>candidates = candidate_enums, rejected = {}\<rparr>;
          s1 = fold (field_step ir) (walk_fields classes) s0
      in for_each (method_step ir engine) (walk_methods classes) s1)"

text \<open>The final loop erases every rejected type from the candidate set.\<close>

definition final_prune :: "pass_state \<Rightarrow> DexType set" where
  "final_prune s = candidates s - rejected s"

definition reject_unsafe_enums ::
  "IRFacade \<Rightarrow> EnumFixpointIterator \<Rightarrow> DexClass list \<Rightarrow> DexType set \<Rightarrow> error + DexType set" where
  "reject_unsafe_enums ir engine classes candidate_enums =
     and_then (analysis_phase ir engine classes candidate_enums) (\<lambda>s. Inr (final_prune s))"

section \<open>A facade over Dalvik descriptors and small programs\<close>

text \<open>
  One instance of the facade, on which the definitions are evaluated: primitive types are
  the one-letter descriptors, an array type starts with \<open>[\<close>, \<^verbatim>\<open>get_array_type\<close> strips
  every \<open>[\<close> and \<^verbatim>\<open>get_array_component_type\<close> one. \<open>LE;\<close>, \<open>LF;\<close> and \<open>LG;\<close> are enum
  classes.
\<close>

definition dex_is_array :: "DexType \<Rightarrow> bool" where
  "dex_is_array t = (case t of [] \<Rightarrow> False | c # cs \<Rightarrow> c = CHR ''['')"

definition enum_class :: DexClass where
  "enum_class = \<lparr>is_enum = True, get_fields = [], get_methods = []\<rparr>"

definition dex_ir :: IRFacade where
  "dex_ir =
     \<lparr>is_primitive = (\<lambda>t. t \<in> set [''Z'', ''B'', ''S'', ''C'', ''I'', ''J'', ''F'', ''D'', ''V'']),
      is_array = dex_is_array,
      get_array_type =
        (\<lambda>t. if dex_is_array t then Some (dropWhile (\<lambda>c. c = CHR ''['') t) else None),
      get_array_component_type = (\<lambda>t. if dex_is_array t then Some (tl t) else None),
      type_class_of = (\<lambda>t. if t \<in> set [''LE;'', ''LF;'', ''LG;''] then Some enum_class else None),
      get_enum_type = ''Ljava/lang/Enum;'',
      get_class_type = ''Ljava/lang/Class;'',
      get_string_type = ''Ljava/lang/String;'',
      RESULT_REGISTER = 4294967294\<rparr>"

definition plain_insn :: "IROpcode \<Rightarrow> Register list \<Rightarrow> IRInstruction" where
  "plain_insn op rs =
     \<lparr>opcode = op, srcs = rs, insn_dest = None, dest_is_wide = False,
      has_move_result_pseudo = False, insn_type = None, insn_field = None,
      insn_method = None\<rparr>"

definition const_class :: "DexType \<Rightarrow> IRInstruction" where
  "const_class t =
     (plain_insn OPCODE_CONST_CLASS [])\<lparr>has_move_result_pseudo := True, insn_type := Some t\<rparr>"

text \<open>\<open>invoke-virtual {v0, v1}, LE;.compareTo:(Ljava/lang/Enum;)I\<close>\<close>

definition invoke_compareTo :: IRInstruction where
  "invoke_compareTo =
     (plain_insn OPCODE_INVOKE_VIRTUAL [0, 1])
       \<lparr>insn_method := Some (make_method ''LE;'' ''compareTo'' [''Ljava/lang/Enum;''] ''I'')\<rparr>"

text \<open>An environment that binds the registers of a list and leaves the others
  unbound.\<close>

definition env_of :: "(Register \<times> DexType list) list \<Rightarrow> EnumTypeEnvironment" where
  "env_of bs = Env (\<lambda>r. case map_of bs r of None \<Rightarrow> Bottom | Some ts \<Rightarrow> Value ts)"

text \<open>The flags as \<^verbatim>\<open>InnerStruct\<close> initialises them, and after \<^verbatim>\<open>set_has_keep\<close>.\<close>

definition rstate_default :: ReferencedState where
  "rstate_default =
     \<lparr>m_by_string = False, m_by_resources = False, m_keep = False,
      m_set_allowshrinking = False, m_unset_allowshrinking = False,
      m_set_allowobfuscation = False, m_unset_allowobfuscation = False,
      m_keep_name = False\<rparr>"

definition rstate_kept :: ReferencedState where
  "rstate_kept = rstate_default\<lparr>m_keep := True\<rparr>"

text \<open>A static method \<open>()V\<close> whose code is one block.\<close>

definition static_void_method ::
  "DexType \<Rightarrow> string \<Rightarrow> IRInstruction list \<Rightarrow> DexType list \<Rightarrow> DexMethod" where
  "static_void_method cls name body gathered =
     \<lparr>method_class = cls, method_name = name,
      get_proto = \<lparr>get_rtype = ''V'', get_args = []\<rparr>, is_def = True, is_static = True,
      get_code = Some \<lparr>get_param_instructions = [], cfg_blocks = [body]\<rparr>,
      method_rstate = rstate_default, method_gather_types = gathered\<rparr>"

text \<open>The engine on code of one block: the entry state of the entry block is the initial
  environment, and no other block is reachable.\<close>

definition entry_block_engine :: EnumFixpointIterator where
  "entry_block_engine code env b = (if b = 0 then env else BottomEnv)"

text \<open>The enum \<open>E\<close>, whose static initialiser reads the class object of \<open>F\<close>, and a
  class \<open>X\<close> with a method that reads the class object of \<open>E\<close>.\<close>

definition class_E :: DexClass where
  "class_E =
     \<lparr>is_enum = True, get_fields = [],
      get_methods = [static_void_method ''LE;'' ''<clinit>'' [const_class ''LF;''] [''LF;'']]\<rparr>"

definition class_X :: DexClass where
  "class_X =
     \<lparr>is_enum = False, get_fields = [],
      get_methods = [static_void_method ''LX;'' ''m'' [const_class ''LE;''] [''LE;'']]\<rparr>"

text \<open>\<open>iput-object v0, v1, LX;.f:Ljava/lang/Object;\<close> and \<open>aput-object v0, v1\<close>\<close>

definition iput_object :: IRInstruction where
  "iput_object =
     (plain_insn OPCODE_IPUT_OBJECT [0, 1])
       \<lparr>insn_field := Some \<lparr>field_class = ''LX;'', field_type = ''Ljava/lang/Object;''\<rparr>\<rparr>"

definition aput_object :: IRInstruction where
  "aput_object = plain_insn OPCODE_APUT_OBJECT [0, 1]"

text \<open>An instance method of the enum \<open>E\<close> that reads the class object of \<open>F\<close> and
  returns \<open>this\<close> as an \<open>Object\<close>; its instructions name \<open>F\<close> only. And a class whose
  method reads the class object of \<open>F\<close>.\<close>

definition load_param_object :: "Register \<Rightarrow> IRInstruction" where
  "load_param_object r = (plain_insn IOPCODE_LOAD_PARAM_OBJECT [])\<lparr>insn_dest := Some r\<rparr>"

definition return_object :: "Register \<Rightarrow> IRInstruction" where
  "return_object r = plain_insn OPCODE_RETURN_OBJECT [r]"

definition upcasting_method :: DexMethod where
  "upcasting_method =
     \<lparr>method_class = ''LE;'', method_name = ''self'',
      get_proto = \<lparr>get_rtype = ''Ljava/lang/Object;'', get_args = []\<rparr>,
      is_def = True, is_static = False,
      get_code = Some \<lparr>get_param_instructions = [load_param_object 0],
                        cfg_blocks = [[load_param_object 0, const_class ''LF;'', return_object 0]]\<rparr>,
      method_rstate = rstate_default, method_gather_types = [''LF;'']\<rparr>"

definition class_E_upcasting :: DexClass where
  "class_E_upcasting = \<lparr>is_enum = True, get_fields = [], get_methods = [upcasting_method]\<rparr>"

definition class_X_reads_F :: DexClass where
  "class_X_reads_F =
     \<lparr>is_enum = False, get_fields = [],
      get_methods = [static_void_method ''LX;'' ''m'' [const_class ''LF;''] [''LF;'']]\<rparr>"

section \<open>Notions used to state the properties\<close>

text \<open>
  A function from the rejected set to the new rejected set (or an abort) only adds
  candidates when there is one outcome \<open>r\<close>, an abort or a set of candidates, such that
  from every rejected set the function aborts as \<open>r\<close> does or returns the set enlarged by
  \<open>r\<close>.
\<close>

definition candidate_adder ::
  "DexType set \<Rightarrow> (DexType set \<Rightarrow> error + DexType set) \<Rightarrow> bool" where
  "candidate_adder C f =
     (\<exists>r. (\<forall>rej. f rej = map_sum id ((\<union>) rej) r) \<and>
          (case r of Inl e \<Rightarrow> True | Inr d \<Rightarrow> d \<subseteq> C))"

text \<open>The candidates that the proto of a method names, and those that the proto and
  the instructions name, each array type reduced as the driver reduces it.\<close>

definition proto_candidates :: "IRFacade \<Rightarrow> DexType set \<Rightarrow> DexMethod \<Rightarrow> DexType set" where
  "proto_candidates ir C m =
     {t \<in> C. \<exists>ty \<in> set (proto_gather_types (get_proto m)). strip_array ir ty = Some t}"

definition gathered_candidates :: "IRFacade \<Rightarrow> DexType set \<Rightarrow> DexMethod \<Rightarrow> DexType set" where
  "gathered_candidates ir C m =
     {t \<in> C. \<exists>ty \<in> set (proto_gather_types (get_proto m) @ method_gather_types m).
               strip_array ir ty = Some t}"

text \<open>The shape of the methods that javac generates for an enum: \<open><clinit>\<close>,
  \<open><init>\<close>, \<open>values()\<close> and \<open>valueOf(String)\<close>, as \<open>is_generated_enum_method\<close> tests
  it.\<close>

definition generated_shape :: "IRFacade \<Rightarrow> DexMethod \<Rightarrow> bool" where
  "generated_shape ir m =
     (is_clinit m \<or> is_init m \<or> is_enum_values ir m \<or> is_enum_valueof ir m)"

text \<open>What a field adds to the rejected set, whatever the rejected set is: the candidate
  type of a field of a non-candidate class that cannot be renamed.\<close>

definition field_rejections :: "IRFacade \<Rightarrow> DexType set \<Rightarrow> DexField \<Rightarrow> DexType set" where
  "field_rejections ir C f =
     (if field_class f \<in> C then {}
      else (case strip_array ir (field_type f) of
              None \<Rightarrow> {}
            | Some t \<Rightarrow> if t \<in> C \<and> \<not> can_rename_field f then {t} else {}))"

text \<open>What a method adds to the rejected set when it is processed on its own. A method
  with the generated shape in a candidate class adds nothing. Any other method adds the
  candidates in its proto when it cannot be renamed and, when it has code and gathers a
  candidate, what the detector rejects in its code starting from the empty set.\<close>

definition method_rejections ::
  "IRFacade \<Rightarrow> EnumFixpointIterator \<Rightarrow> DexType set \<Rightarrow> DexMethod \<Rightarrow> DexType set" where
  "method_rejections ir engine C m =
     (if method_class m \<in> C \<and> generated_shape ir m then {}
      else (if can_rename_method m then {} else proto_candidates ir C m) \<union>
           (if get_code m = None \<or> gathered_candidates ir C m = {} then {}
            else (case analyze_method ir engine C m {} of Inl e \<Rightarrow> {} | Inr d \<Rightarrow> d)))"

text \<open>A static method \<open>n\<close> of a class \<open>Y\<close> without code, kept by a keep rule, with
  proto \<open>([LF;)V\<close>; a kept method of \<open>X\<close> whose only instruction reads the static field
  \<open>LE;.A:LE;\<close>; and a non-static method that has no load-param instruction.\<close>

definition kept_proto_method :: DexMethod where
  "kept_proto_method =
     \<lparr>method_class = ''LY;'', method_name = ''n'',
      get_proto = \<lparr>get_rtype = ''V'', get_args = [''[LF;'']\<rparr>, is_def = True, is_static = True,
      get_code = None, method_rstate = rstate_kept, method_gather_types = [''LG;'']\<rparr>"

definition sget_object :: IRInstruction where
  "sget_object =
     (plain_insn OPCODE_SGET_OBJECT [])
       \<lparr>has_move_result_pseudo := True,
        insn_field := Some \<lparr>field_class = ''LE;'', field_type = ''LE;''\<rparr>\<rparr>"

definition kept_reader :: DexMethod where
  "kept_reader =
     (static_void_method ''LX;'' ''read'' [sget_object] [''LE;'', ''LE;''])
       \<lparr>method_rstate := rstate_kept\<rparr>"

definition nonstatic_no_params :: DexMethod where
  "nonstatic_no_params =
     (static_void_method ''LX;'' ''bad'' [const_class ''LE;''] [''LE;''])\<lparr>is_static := False\<rparr>"

definition class_Y :: DexClass where
  "class_Y = \<lparr>is_enum = False, get_fields = [], get_methods = [kept_proto_method]\<rparr>"

text \<open>An ordinary enum \<open>G\<close> with its static initialiser and its \<open>values()\<close>, which
  gather no candidate but \<open>G\<close>; and a class \<open>Z\<close> whose method returns \<open>null\<close>: it
  gathers no candidate, and its analysis would fail the assertion of \<open>return-object\<close> on
  a register that holds bottom.\<close>

definition new_instance :: "DexType \<Rightarrow> IRInstruction" where
  "new_instance t =
     (plain_insn OPCODE_NEW_INSTANCE [])\<lparr>has_move_result_pseudo := True, insn_type := Some t\<rparr>"

definition sget_values_G :: IRInstruction where
  "sget_values_G =
     (plain_insn OPCODE_SGET_OBJECT [])
       \<lparr>has_move_result_pseudo := True,
        insn_field := Some \<lparr>field_class = ''LG;'', field_type = ''[LG;''\<rparr>\<rparr>"

definition values_G :: DexMethod where
  "values_G =
     \<lparr>method_class = ''LG;'', method_name = ''values'',
      get_proto = \<lparr>get_rtype = ''[LG;'', get_args = []\<rparr>, is_def = True, is_static = True,
      get_code = Some \<lparr>get_param_instructions = [], cfg_blocks = [[sget_values_G]]\<rparr>,
      method_rstate = rstate_default, method_gather_types = [''LG;'', ''[LG;'']\<rparr>"

definition class_G :: DexClass where
  "class_G =
     \<lparr>is_enum = True, get_fields = [],
      get_methods = [static_void_method ''LG;'' ''<clinit>'' [new_instance ''LG;''] [''LG;''],
                     values_G]\<rparr>"

definition const_zero :: "Register \<Rightarrow> IRInstruction" where
  "const_zero r = (plain_insn (OPCODE_OTHER 0) [])\<lparr>insn_dest := Some r\<rparr>"

definition null_returning_method :: DexMethod where
  "null_returning_method =
     \<lparr>method_class = ''LZ;'', method_name = ''none'',
      get_proto = \<lparr>get_rtype = ''Ljava/lang/Object;'', get_args = []\<rparr>,
      is_def = True, is_static = True,
      get_code = Some \<lparr>get_param_instructions = [],
                        cfg_blocks = [[const_zero 0, return_object 0]]\<rparr>,
      method_rstate = rstate_default, method_gather_types = []\<rparr>"

definition class_Z :: DexClass where
  "class_Z = \<lparr>is_enum = False, get_fields = [], get_methods = [null_returning_method]\<rparr>"

section \<open>Basic facts\<close>

lemma and_then_Inr: "and_then (Inr x) k = k x"
  by (simp add: and_then_def)

lemma and_then_Inl: "and_then (Inl e) k = Inl e"
  by (simp add: and_then_def)

lemma src_Cons0: "srcs insn = a # others \<Longrightarrow> src insn 0 = Inr a"
  by (simp add: src_def)

lemma src_Cons1: "srcs insn = a # b # others \<Longrightarrow> src insn (Suc 0) = Inr b"
  by (simp add: src_def)

lemma fold_reject:
  "fold (\<lambda>t rej. reject C t rej reason) ts rej = rej \<union> (set ts \<inter> C)"
  by (induction ts arbitrary: rej) (auto simp: reject_def)

lemma reject_set_eq: "reject_set C ts rej reason = rej \<union> (set ts \<inter> C)"
  by (simp add: reject_set_def fold_reject)

lemma reject_types_eq: "reject_types C V rej reason = rej \<union> (set (elements V) \<inter> C)"
  by (simp add: reject_types_def fold_reject)

lemma fold_need_delete:
  "fold (\<lambda>t (nd, r). if P t then (True, reject C t r reason) else (nd, r)) ts (nd0, rej) =
     (nd0 \<or> (\<exists>t \<in> set ts. P t), rej \<union> {t \<in> set ts. P t \<and> t \<in> C})"
  by (induction ts arbitrary: nd0 rej) (auto simp: reject_def)

lemma reject_if_inconsistent_eq:
  "reject_if_inconsistent ir C V R rej reason =
     rej \<union>
     (if R \<in> C
      then {t \<in> set (elements V). \<not> is_primitive ir t \<and> t \<noteq> R \<and> t \<in> C} \<union>
           (if \<exists>t \<in> set (elements V). \<not> is_primitive ir t \<and> t \<noteq> R then {R} else {})
      else {t \<in> set (elements V). t \<in> C})"
  unfolding reject_if_inconsistent_def
  apply (simp only: fold_need_delete fold_reject)
  apply (auto simp: reject_def)
  done

lemma set_discard_primitives:
  "set (discard_primitives ir V) = {t \<in> set (elements V). \<not> is_primitive ir t}"
proof -
  have "set (fold (\<lambda>type res. if \<not> is_primitive ir type then List.insert type res else res)
               ts acc)
        = set acc \<union> {t \<in> set ts. \<not> is_primitive ir t}" for ts acc
    by (induction ts arbitrary: acc) auto
  then show ?thesis by (simp add: discard_primitives_def)
qed

lemma distinct_discard_primitives: "distinct (discard_primitives ir V)"
proof -
  have "distinct acc \<Longrightarrow>
        distinct (fold (\<lambda>type res. if \<not> is_primitive ir type then List.insert type res
                                   else res) ts acc)" for ts acc
    by (induction ts arbitrary: acc) auto
  then show ?thesis by (simp add: discard_primitives_def)
qed

lemma short_list: "length xs \<le> 1 \<Longrightarrow> xs = [] \<or> (\<exists>a. xs = [a])"
  by (cases xs) simp_all

lemma first_or_null_simps:
  "first_or_null [] = None" "first_or_null (x # xs) = Some x"
  by (simp_all add: first_or_null_def)

lemma first_or_null_cond:
  assumes "distinct xs" "distinct ys"
  shows "(length xs > 1 \<or> length ys > 1 \<or>
          (first_or_null xs \<noteq> None \<and> first_or_null ys \<noteq> None \<and>
           first_or_null xs \<noteq> first_or_null ys)) =
         (card (set xs) > 1 \<or> card (set ys) > 1 \<or>
          (\<exists>a b. set xs = {a} \<and> set ys = {b} \<and> a \<noteq> b))"
proof -
  have cx: "card (set xs) = length xs" and cy: "card (set ys) = length ys"
    using assms by (simp_all add: distinct_card)
  show ?thesis
  proof (cases "length xs > 1 \<or> length ys > 1")
    case True
    then show ?thesis unfolding cx cy by blast
  next
    case False
    then have lx: "length xs \<le> 1" and ly: "length ys \<le> 1"
      by simp_all
    have sx: "xs = [] \<or> (\<exists>a. xs = [a])"
      using lx by (rule short_list)
    have sy: "ys = [] \<or> (\<exists>b. ys = [b])"
      using ly by (rule short_list)
    from sx sy show ?thesis
    proof (elim disjE exE)
      assume "xs = []" "ys = []"
      then show ?thesis by (simp add: first_or_null_simps)
    next
      fix b assume "xs = []" "ys = [b]"
      then show ?thesis by (simp add: first_or_null_simps)
    next
      fix a assume "xs = [a]" "ys = []"
      then show ?thesis by (simp add: first_or_null_simps)
    next
      fix a b assume "xs = [a]" "ys = [b]"
      then show ?thesis by (simp add: first_or_null_simps)
    qed
  qed
qed

section \<open>The detector, instruction by instruction\<close>

text \<open>
  Claim C1. A call of \<open>reject_if_inconsistent\<close> with the types \<open>V\<close> of a register and a
  required type \<open>R\<close> adds to the rejected set exactly these types. When \<open>R\<close> is a
  candidate: every candidate among the non-primitive elements of \<open>V\<close> other than \<open>R\<close>,
  and \<open>R\<close> itself as soon as \<open>V\<close> has a non-primitive element other than \<open>R\<close> (candidate
  or not). When \<open>R\<close> is no candidate: every candidate among the elements of \<open>V\<close>.
  Nothing else is added and nothing is removed.
\<close>

theorem reject_if_inconsistent_insertions:
  "reject_if_inconsistent ir C V R rej reason =
     rej \<union>
     (if R \<in> C
      then {t \<in> set (elements V). \<not> is_primitive ir t \<and> t \<noteq> R \<and> t \<in> C} \<union>
           (if \<exists>t \<in> set (elements V). \<not> is_primitive ir t \<and> t \<noteq> R then {R} else {})
      else {t \<in> set (elements V). t \<in> C})"
proof (cases "R \<in> C")
  case True
  have "fold (\<lambda>possible_type (need_delete, rej).
                if \<not> is_primitive ir possible_type \<and> possible_type \<noteq> R
                then (True, reject C possible_type rej reason)
                else (need_delete, rej))
          (elements V) (False, rej) =
        (\<exists>t \<in> set (elements V). \<not> is_primitive ir t \<and> t \<noteq> R,
         rej \<union> {t \<in> set (elements V). (\<not> is_primitive ir t \<and> t \<noteq> R) \<and> t \<in> C})"
    using fold_need_delete [of "\<lambda>t. \<not> is_primitive ir t \<and> t \<noteq> R" C reason "elements V" False rej]
    by simp
  with True show ?thesis
    by (auto simp: reject_if_inconsistent_def reject_def)
next
  case False
  then show ?thesis
    by (auto simp: reject_if_inconsistent_def fold_reject)
qed

theorem reject_if_inconsistent_insertions_witness:
  "reject_if_inconsistent dex_ir {''LE;'', ''LF;''} (Value [''LE;'', ''LG;'', ''I'']) ''LE;''
     {''LF;''} CAST_CHECK_CAST = {''LF;'', ''LE;''}"
  using reject_if_inconsistent_insertions
    [of dex_ir "{''LE;'', ''LF;''}" "Value [''LE;'', ''LG;'', ''I'']" "''LE;''" "{''LF;''}"
      CAST_CHECK_CAST]
  by (auto simp: dex_ir_def)

text \<open>
  Claim C2. On an \<open>invoke-virtual\<close> of a method with the signature of
  \<open>Enum.equals(Object)\<close> or \<open>Enum.compareTo(Enum)\<close> whose class is \<open>java.lang.Enum\<close> or
  a candidate, let \<open>thisTypes\<close> and \<open>thatTypes\<close> be the non-primitive types of the first
  and the second source register. The detector rejects both sets (each type through
  \<open>reject\<close>, which keeps the candidates) exactly when \<open>thisTypes\<close> has more than one
  element, or \<open>thatTypes\<close> has, or both are singletons of different types; otherwise the
  rejected set is returned as it was.
\<close>

theorem enum_equals_compareto_rejection:
  assumes "opcode insn = OPCODE_INVOKE_VIRTUAL"
    and "insn_method insn = Some callee"
    and "method_class callee = get_enum_type ir \<or> method_class callee \<in> C"
    and "signatures_match callee ENUM_EQUALS_METHOD \<or>
         signatures_match callee ENUM_COMPARETO_METHOD"
    and "srcs insn = src0 # src1 # others"
  shows "let thisTypes = {t \<in> set (elements (env_get env src0)). \<not> is_primitive ir t};
             thatTypes = {t \<in> set (elements (env_get env src1)). \<not> is_primitive ir t}
         in process_instruction ir C m_method insn env rej =
              Inr (if card thisTypes > 1 \<or> card thatTypes > 1 \<or>
                      (\<exists>a b. thisTypes = {a} \<and> thatTypes = {b} \<and> a \<noteq> b)
                   then rej \<union> (thisTypes \<inter> C) \<union> (thatTypes \<inter> C)
                   else rej)"
proof -
  let ?xs = "discard_primitives ir (env_get env src0)"
  let ?ys = "discard_primitives ir (env_get env src1)"
  have cond: "(length ?xs > 1 \<or> length ?ys > 1 \<or>
          (first_or_null ?xs \<noteq> None \<and> first_or_null ?ys \<noteq> None \<and>
           first_or_null ?xs \<noteq> first_or_null ?ys)) =
         (card (set ?xs) > 1 \<or> card (set ?ys) > 1 \<or>
          (\<exists>a b. set ?xs = {a} \<and> set ?ys = {b} \<and> a \<noteq> b))"
    by (rule first_or_null_cond) (rule distinct_discard_primitives)+
  have pv: "process_virtual_invocation ir C insn env rej =
      (if (length ?xs > 1 \<or> length ?ys > 1 \<or>
          (first_or_null ?xs \<noteq> None \<and> first_or_null ?ys \<noteq> None \<and>
           first_or_null ?xs \<noteq> first_or_null ?ys))
       then Inr (reject_set C ?ys (reject_set C ?xs rej CAST_THIS_POINTER) CAST_PARAMETER)
       else Inr rej)"
    using assms
    by (simp add: process_virtual_invocation_def get_method_def and_then_Inr
        src_Cons0 [OF assms(5)] src_Cons1 [OF assms(5)] Let_def)
  have pi: "process_instruction ir C m_method insn env rej =
        process_virtual_invocation ir C insn env rej"
    using assms(1) by (simp add: process_instruction_def)
  let ?A = "{t \<in> set (elements (env_get env src0)). \<not> is_primitive ir t}"
  let ?B = "{t \<in> set (elements (env_get env src1)). \<not> is_primitive ir t}"
  have res: "process_instruction ir C m_method insn env rej =
      (if card ?A > 1 \<or> card ?B > 1 \<or> (\<exists>a b. ?A = {a} \<and> ?B = {b} \<and> a \<noteq> b)
       then Inr (rej \<union> (?A \<inter> C) \<union> (?B \<inter> C)) else Inr rej)"
    by (simp only: pi pv cond reject_set_eq set_discard_primitives)
  show ?thesis
    unfolding Let_def res by (rule if_distrib [symmetric])
qed

theorem enum_equals_compareto_rejection_witness:
  "process_instruction dex_ir {''LE;'', ''LF;''} ENUM_COMPARETO_METHOD invoke_compareTo
     (env_of [(0, [''LE;'']), (1, [''LF;''])]) {} = Inr {''LE;'', ''LF;''}"
proof -
  have "let thisTypes = {t \<in> set (elements (env_get (env_of [(0, [''LE;'']), (1, [''LF;''])]) 0)).
                           \<not> is_primitive dex_ir t};
            thatTypes = {t \<in> set (elements (env_get (env_of [(0, [''LE;'']), (1, [''LF;''])]) 1)).
                           \<not> is_primitive dex_ir t}
        in process_instruction dex_ir {''LE;'', ''LF;''} ENUM_COMPARETO_METHOD invoke_compareTo
             (env_of [(0, [''LE;'']), (1, [''LF;''])]) {} =
           Inr (if card thisTypes > 1 \<or> card thatTypes > 1 \<or>
                   (\<exists>a b. thisTypes = {a} \<and> thatTypes = {b} \<and> a \<noteq> b)
                then {} \<union> (thisTypes \<inter> {''LE;'', ''LF;''}) \<union> (thatTypes \<inter> {''LE;'', ''LF;''})
                else {})"
    by (rule enum_equals_compareto_rejection
          [where callee = "make_method ''LE;'' ''compareTo'' [''Ljava/lang/Enum;''] ''I''"
             and others = "[]"])
       (simp_all add: invoke_compareTo_def plain_insn_def make_method_def signatures_match_def
          ENUM_COMPARETO_METHOD_def)
  then show ?thesis
    by (simp add: Let_def env_of_def dex_ir_def Collect_conv_if insert_commute)
qed

lemma set_acceptable_elem_types_of:
  "set (acceptable_elem_types_of ir V) =
     {e. \<exists>t \<in> set (elements V). get_array_type ir t = Some e \<and> \<not> is_primitive ir e}"
proof -
  have "set (fold (\<lambda>type acc.
                    case get_array_type ir type of
                      None \<Rightarrow> acc
                    | Some elem \<Rightarrow> if \<not> is_primitive ir elem then List.insert elem acc else acc)
               ts acc)
        = set acc \<union> {e. \<exists>t \<in> set ts. get_array_type ir t = Some e \<and> \<not> is_primitive ir e}"
    for ts acc
    by (induction ts arbitrary: acc) (auto split: option.splits)
  then show ?thesis by (simp add: acceptable_elem_types_of_def)
qed

lemma distinct_acceptable_elem_types_of: "distinct (acceptable_elem_types_of ir V)"
proof -
  have "distinct acc \<Longrightarrow>
        distinct (fold (\<lambda>type acc.
                    case get_array_type ir type of
                      None \<Rightarrow> acc
                    | Some elem \<Rightarrow> if \<not> is_primitive ir elem then List.insert elem acc else acc)
               ts acc)" for ts acc
    by (induction ts arbitrary: acc) (auto split: option.splits)
  then show ?thesis by (simp add: acceptable_elem_types_of_def)
qed

text \<open>
  Claim C5. For a \<open>const-class t\<close> instruction (which has a move-result-pseudo): the
  transfer function binds the result register to the singleton of \<open>java.lang.Class\<close>,
  not to the singleton of \<open>t\<close>, and the detector adds \<open>t\<close> to the rejected set when
  \<open>t\<close> is a candidate (reason \<open>USED_AS_CLASS_OBJECT\<close>) and leaves the set alone
  otherwise.
\<close>

theorem const_class_transfer_and_rejection:
  assumes "opcode insn = OPCODE_CONST_CLASS"
    and "insn_type insn = Some t"
    and "has_move_result_pseudo insn"
  shows "analyze_instruction ir insn env =
           Inr (env_set env (RESULT_REGISTER ir) (EnumTypes_of (get_class_type ir))) \<and>
         (\<not> is_bottom env \<longrightarrow>
            env_get (env_set env (RESULT_REGISTER ir) (EnumTypes_of (get_class_type ir)))
              (RESULT_REGISTER ir) = Value [get_class_type ir] \<and>
            (t \<noteq> get_class_type ir \<longrightarrow>
               env_get (env_set env (RESULT_REGISTER ir) (EnumTypes_of (get_class_type ir)))
                 (RESULT_REGISTER ir) \<noteq> EnumTypes_of t)) \<and>
         process_instruction ir C m_method insn env' rej =
           Inr (if t \<in> C then insert t rej else rej)"
proof (intro conjI)
  show "analyze_instruction ir insn env =
           Inr (env_set env (RESULT_REGISTER ir) (EnumTypes_of (get_class_type ir)))"
    using assms by (simp add: analyze_instruction_def and_then_Inr)
  show "\<not> is_bottom env \<longrightarrow>
            env_get (env_set env (RESULT_REGISTER ir) (EnumTypes_of (get_class_type ir)))
              (RESULT_REGISTER ir) = Value [get_class_type ir] \<and>
            (t \<noteq> get_class_type ir \<longrightarrow>
               env_get (env_set env (RESULT_REGISTER ir) (EnumTypes_of (get_class_type ir)))
                 (RESULT_REGISTER ir) \<noteq> EnumTypes_of t)"
    by (cases env) (auto simp: EnumTypes_of_def)
  show "process_instruction ir C m_method insn env' rej =
           Inr (if t \<in> C then insert t rej else rej)"
    using assms by (simp add: process_instruction_def get_type_def and_then_Inr reject_def)
qed

theorem const_class_transfer_and_rejection_witness:
  "analyze_instruction dex_ir (const_class ''LE;'') env_default =
     Inr (env_set env_default 4294967294 (Value [''Ljava/lang/Class;''])) \<and>
   env_get (env_set env_default 4294967294 (Value [''Ljava/lang/Class;''])) 4294967294 =
     Value [''Ljava/lang/Class;''] \<and>
   env_get (env_set env_default 4294967294 (Value [''Ljava/lang/Class;''])) 4294967294 \<noteq>
     Value [''LE;''] \<and>
   process_instruction dex_ir {''LE;''} ENUM_NAME_METHOD (const_class ''LE;'') env_default {} =
     Inr {''LE;''}"
  using const_class_transfer_and_rejection
    [of "const_class ''LE;''" "''LE;''" dex_ir env_default "{''LE;''}" ENUM_NAME_METHOD
      env_default "{}"]
  by (simp add: const_class_def plain_insn_def dex_ir_def env_default_def EnumTypes_of_def)

text \<open>
  Claim C6. For an \<open>aput-object\<close> with value register \<open>src(0)\<close> and array register
  \<open>src(1)\<close>, let \<open>AT\<close> be the non-primitive results of \<^verbatim>\<open>get_array_type\<close> on the types
  of the array register. With more than one element in \<open>AT\<close> the detector rejects every
  candidate among the types of the value register and among \<open>AT\<close>; with exactly one it
  applies \<open>reject_if_inconsistent\<close> to the value register against that element; with
  none (in particular when the array register holds no array type) it rejects nothing.
\<close>

theorem aput_object_rejection:
  assumes "opcode insn = OPCODE_APUT_OBJECT"
    and "srcs insn = val_reg # array_reg # others"
  shows "let AT = {e. \<exists>t \<in> set (elements (env_get env array_reg)).
                        get_array_type ir t = Some e \<and> \<not> is_primitive ir e};
             V = env_get env val_reg;
             result = process_instruction ir C m_method insn env rej
         in (card AT > 1 \<longrightarrow> result = Inr (rej \<union> ((set (elements V) \<union> AT) \<inter> C))) \<and>
            (\<forall>e. AT = {e} \<longrightarrow>
               result = Inr (reject_if_inconsistent ir C V e rej CAST_APUT_OBJECT)) \<and>
            (AT = {} \<longrightarrow> result = Inr rej)"
proof -
  let ?ats = "acceptable_elem_types_of ir (env_get env array_reg)"
  let ?V = "env_get env val_reg"
  have pa: "process_instruction ir C m_method insn env rej =
      (if length ?ats > 1
       then Inr (reject_set C ?ats (reject_types C ?V rej CAST_APUT_OBJECT) CAST_APUT_OBJECT)
       else if length ?ats = 1
       then Inr (reject_if_inconsistent ir C ?V (hd ?ats) rej CAST_APUT_OBJECT)
       else Inr rej)"
    using assms(1)
    by (simp add: process_instruction_def process_aput_object_def and_then_Inr
        src_Cons0 [OF assms(2)] src_Cons1 [OF assms(2)] Let_def)
  have card_len: "card (set ?ats) = length ?ats"
    by (rule distinct_card) (rule distinct_acceptable_elem_types_of)
  have many: "card (set ?ats) > 1 \<Longrightarrow>
      process_instruction ir C m_method insn env rej =
        Inr (rej \<union> ((set (elements ?V) \<union> set ?ats) \<inter> C))"
    unfolding pa card_len by (auto simp: reject_set_eq reject_types_eq)
  have one: "set ?ats = {e} \<Longrightarrow>
      process_instruction ir C m_method insn env rej =
        Inr (reject_if_inconsistent ir C ?V e rej CAST_APUT_OBJECT)" for e
  proof -
    assume s: "set ?ats = {e}"
    then have "length ?ats = 1" using card_len by simp
    then obtain x where x: "?ats = [x]"
      by (cases ?ats) simp_all
    with s have "x = e" by simp
    with x show ?thesis unfolding pa by simp
  qed
  have none: "set ?ats = {} \<Longrightarrow> process_instruction ir C m_method insn env rej = Inr rej"
    unfolding pa by simp
  show ?thesis
    unfolding Let_def set_acceptable_elem_types_of [symmetric]
    using many one none by blast
qed

theorem aput_object_rejection_witness:
  "process_instruction dex_ir {''LE;'', ''LF;'', ''LG;''} ENUM_NAME_METHOD aput_object
     (env_of [(0, [''LG;'']), (1, [''[LE;'', ''[LF;''])]) {} = Inr {''LE;'', ''LF;'', ''LG;''}"
proof -
  let ?env = "env_of [(0, [''LG;'']), (1, [''[LE;'', ''[LF;''])]"
  have AT: "{e. \<exists>t \<in> set (elements (env_get ?env 1)).
               get_array_type dex_ir t = Some e \<and> \<not> is_primitive dex_ir e} = {''LE;'', ''LF;''}"
    by (auto simp: env_of_def dex_ir_def dex_is_array_def)
  have c: "card {''LE;'', ''LF;''} > 1" by simp
  from aput_object_rejection [of aput_object 0 1 "[]" ?env dex_ir "{''LE;'', ''LF;'', ''LG;''}"
      ENUM_NAME_METHOD "{}"]
  have "process_instruction dex_ir {''LE;'', ''LF;'', ''LG;''} ENUM_NAME_METHOD aput_object ?env {}
        = Inr ({} \<union> ((set (elements (env_get ?env 0)) \<union> {''LE;'', ''LF;''}) \<inter> {''LE;'', ''LF;'', ''LG;''}))"
    unfolding Let_def AT using c by (simp add: aput_object_def plain_insn_def)
  then show ?thesis
    by (auto simp: env_of_def)
qed

text \<open>
  Claim C9. For an \<open>iput-object\<close> the detector first asserts that the class of the
  accessed field is no candidate, and aborts otherwise; only then does it apply
  \<open>reject_if_inconsistent\<close> to the value register against the type of the field. The
  assertion is the one that guards \<open>iget-object\<close>, which rejects nothing.
\<close>

theorem iput_object_assertion_then_check:
  assumes "opcode insn = OPCODE_IPUT_OBJECT"
    and "insn_field insn = Some field"
    and "srcs insn = val_reg # others"
  shows "process_instruction ir C m_method insn env rej =
           (if field_class field \<in> C then Inl AssertionFailure
            else Inr (reject_if_inconsistent ir C (env_get env val_reg) (field_type field) rej
                        CAST_ISPUT_OBJECT)) \<and>
         (opcode iget = OPCODE_IGET_OBJECT \<and> insn_field iget = Some field \<longrightarrow>
            process_instruction ir C m_method iget env rej =
              (if field_class field \<in> C then Inl AssertionFailure else Inr rej))"
  using assms
  by (simp add: process_instruction_def process_isput_object_def get_field_def and_then_Inr
      src_Cons0)

theorem iput_object_assertion_then_check_witness:
  "process_instruction dex_ir {''LE;''} ENUM_NAME_METHOD iput_object
     (env_of [(0, [''LE;''])]) {} = Inr {''LE;''} \<and>
   process_instruction dex_ir {''LE;'', ''LX;''} ENUM_NAME_METHOD iput_object
     (env_of [(0, [''LE;''])]) {} = Inl AssertionFailure"
  using iput_object_assertion_then_check
    [of iput_object "\<lparr>field_class = ''LX;'', field_type = ''Ljava/lang/Object;''\<rparr>" 0 "[1]"
      dex_ir "{''LE;''}" ENUM_NAME_METHOD "env_of [(0, [''LE;''])]" "{}"]
    iput_object_assertion_then_check
    [of iput_object "\<lparr>field_class = ''LX;'', field_type = ''Ljava/lang/Object;''\<rparr>" 0 "[1]"
      dex_ir "{''LE;'', ''LX;''}" ENUM_NAME_METHOD "env_of [(0, [''LE;''])]" "{}"]
  by (simp add: iput_object_def plain_insn_def env_of_def reject_if_inconsistent_eq)

section \<open>The detector only adds candidates\<close>

lemma adder_return: "X \<subseteq> C \<Longrightarrow> candidate_adder C (\<lambda>rej. Inr (rej \<union> X))"
  unfolding candidate_adder_def by (rule exI [of _ "Inr X"]) simp

lemma adder_id: "candidate_adder C (\<lambda>rej. Inr rej)"
  using adder_return [of "{}" C] by simp

lemma adder_fail: "candidate_adder C (\<lambda>rej. Inl e)"
  unfolding candidate_adder_def by (rule exI [of _ "Inl e"]) simp

lemma adder_bind:
  assumes "candidate_adder C f" and "candidate_adder C g"
  shows "candidate_adder C (\<lambda>rej. and_then (f rej) g)"
proof -
  from assms(1) obtain r where r: "\<And>rej. f rej = map_sum id ((\<union>) rej) r"
    and rb: "case r of Inl e \<Rightarrow> True | Inr d \<Rightarrow> d \<subseteq> C"
    unfolding candidate_adder_def by blast
  from assms(2) obtain q where q: "\<And>rej. g rej = map_sum id ((\<union>) rej) q"
    and qb: "case q of Inl e \<Rightarrow> True | Inr d \<Rightarrow> d \<subseteq> C"
    unfolding candidate_adder_def by blast
  show ?thesis
  proof (cases r)
    case (Inl e)
    then show ?thesis
      unfolding candidate_adder_def
      by (intro exI [of _ "Inl e"]) (simp add: r and_then_def)
  next
    case (Inr d)
    note rd = this
    show ?thesis
    proof (cases q)
      case (Inl e)
      then show ?thesis
        unfolding candidate_adder_def
        by (intro exI [of _ "Inl e"]) (simp add: r rd q and_then_def)
    next
      case (Inr d')
      then show ?thesis
        unfolding candidate_adder_def
        using rb qb rd
        by (intro exI [of _ "Inr (d \<union> d')"]) (simp add: r q and_then_def Un_assoc)
    qed
  qed
qed

lemma adder_and_then:
  assumes "\<And>v. candidate_adder C (k v)"
  shows "candidate_adder C (\<lambda>rej. and_then x (\<lambda>v. k v rej))"
proof (cases x)
  case (Inl e)
  then show ?thesis by (simp add: and_then_def adder_fail)
next
  case (Inr v)
  then show ?thesis using assms [of v] by (simp add: and_then_def)
qed

lemma adder_if:
  "candidate_adder C f \<Longrightarrow> candidate_adder C g \<Longrightarrow>
   candidate_adder C (\<lambda>rej. if b then f rej else g rej)"
  by (cases b) simp_all

lemma adder_apply:
  assumes "candidate_adder C f" and "f rej = Inr rej'"
  shows "rej \<subseteq> rej' \<and> rej' \<subseteq> rej \<union> C"
proof -
  from assms(1) obtain r where r: "\<And>rej. f rej = map_sum id ((\<union>) rej) r"
    and rb: "case r of Inl e \<Rightarrow> True | Inr d \<Rightarrow> d \<subseteq> C"
    unfolding candidate_adder_def by blast
  from assms(2) r [of rej] obtain d where "r = Inr d" "rej' = rej \<union> d"
    by (cases r) auto
  with rb show ?thesis by auto
qed

lemma adder_frame:
  assumes "candidate_adder C f" and "f {} = Inr d"
  shows "f rej = Inr (rej \<union> d)"
proof -
  from assms(1) obtain r where r: "\<And>rej. f rej = map_sum id ((\<union>) rej) r"
    unfolding candidate_adder_def by blast
  from assms(2) r [of "{}"] have "r = Inr d"
    by (cases r) auto
  then show ?thesis by (simp add: r)
qed

lemma reject_if_inconsistent_frame:
  "reject_if_inconsistent ir C V R rej reason =
     rej \<union> reject_if_inconsistent ir C V R {} reason"
proof -
  let ?X = "if R \<in> C
      then {t \<in> set (elements V). \<not> is_primitive ir t \<and> t \<noteq> R \<and> t \<in> C} \<union>
           (if \<exists>t \<in> set (elements V). \<not> is_primitive ir t \<and> t \<noteq> R then {R} else {})
      else {t \<in> set (elements V). t \<in> C}"
  have e1: "reject_if_inconsistent ir C V R rej reason = rej \<union> ?X"
    by (rule reject_if_inconsistent_eq)
  have e2: "reject_if_inconsistent ir C V R {} reason = {} \<union> ?X"
    by (rule reject_if_inconsistent_eq)
  show ?thesis
    unfolding e1 e2 by (simp only: Un_empty_left)
qed

lemma reject_if_inconsistent_subset: "reject_if_inconsistent ir C V R {} reason \<subseteq> C"
proof -
  let ?X = "if R \<in> C
      then {t \<in> set (elements V). \<not> is_primitive ir t \<and> t \<noteq> R \<and> t \<in> C} \<union>
           (if \<exists>t \<in> set (elements V). \<not> is_primitive ir t \<and> t \<noteq> R then {R} else {})
      else {t \<in> set (elements V). t \<in> C}"
  have e2: "reject_if_inconsistent ir C V R {} reason = {} \<union> ?X"
    by (rule reject_if_inconsistent_eq)
  have "?X \<subseteq> C"
    by (cases "R \<in> C") auto
  then show ?thesis
    unfolding e2 by simp
qed

lemma adder_reject_if_inconsistent:
  "candidate_adder C (\<lambda>rej. Inr (reject_if_inconsistent ir C V R rej reason))"
proof -
  have "(\<lambda>rej. Inr (reject_if_inconsistent ir C V R rej reason) :: error + DexType set) =
        (\<lambda>rej. Inr (rej \<union> reject_if_inconsistent ir C V R {} reason))"
    by (rule ext, rule arg_cong [of _ _ Inr], rule reject_if_inconsistent_frame)
  then show ?thesis
    using adder_return [OF reject_if_inconsistent_subset [of ir C V R reason]] by simp
qed

lemma adder_reject: "candidate_adder C (\<lambda>rej. Inr (reject C t rej reason))"
proof -
  have "(\<lambda>rej. Inr (reject C t rej reason) :: error + DexType set) =
        (\<lambda>rej. Inr (rej \<union> ({t} \<inter> C)))"
    by (auto simp: reject_def fun_eq_iff)
  then show ?thesis by (simp add: adder_return)
qed

lemma adder_reject_set: "candidate_adder C (\<lambda>rej. Inr (reject_set C ts rej reason))"
  by (simp add: reject_set_eq adder_return)

lemma fold_args_frame:
  "fold (\<lambda>(r, t) rej. reject_if_inconsistent ir C (env_get env r) t rej reason) zs rej =
     rej \<union> (\<Union>(r, t) \<in> set zs. reject_if_inconsistent ir C (env_get env r) t {} reason)"
proof (induction zs arbitrary: rej)
  case Nil
  then show ?case by simp
next
  case (Cons z zs)
  obtain r t where z: "z = (r, t)" by (cases z)
  show ?case
    unfolding z
    by (simp add: Cons.IH reject_if_inconsistent_frame [of ir C "env_get env r" t rej reason]
        Un_assoc)
qed

lemma adder_compose:
  assumes "candidate_adder C (\<lambda>rej. Inr (f rej))" and "candidate_adder C (\<lambda>rej. Inr (g rej))"
  shows "candidate_adder C (\<lambda>rej. Inr (g (f rej)))"
  using adder_bind [OF assms] by (simp add: and_then_Inr)

lemma fold_args_subset:
  "(\<Union>(r, t) \<in> set zs. reject_if_inconsistent ir C (env_get env r) t {} reason) \<subseteq> C"
  using reject_if_inconsistent_subset by fastforce

lemma adder_process_general_invocation:
  "candidate_adder C (process_general_invocation ir C insn env)"
proof -
  have body: "candidate_adder C
      (\<lambda>rej. Inr (fold (\<lambda>(r, t) rej. reject_if_inconsistent ir C (env_get env r) t rej reason2) zs
                    (if b2 then reject_if_inconsistent ir C V R
                                 (if b1 then reject C t1 rej reason1 else rej) reason3
                     else (if b1 then reject C t1 rej reason1 else rej))))"
    for zs b1 b2 V R t1 reason1 reason2 reason3
  proof -
    have a1: "candidate_adder C (\<lambda>rej. Inr (if b1 then reject C t1 rej reason1 else rej))"
      using adder_reject [of C t1 reason1] adder_id [of C] by (cases b1) simp_all
    have a2: "candidate_adder C
                (\<lambda>rej. Inr (if b2 then reject_if_inconsistent ir C V R rej reason3 else rej))"
      using adder_reject_if_inconsistent [of C ir V R reason3] adder_id [of C]
      by (cases b2) simp_all
    have a3: "candidate_adder C
                (\<lambda>rej. Inr (fold (\<lambda>(r, t) rej.
                                    reject_if_inconsistent ir C (env_get env r) t rej reason2)
                              zs rej))"
      by (simp only: fold_args_frame) (rule adder_return, rule fold_args_subset)
    have "candidate_adder C
      (\<lambda>rej. Inr (fold (\<lambda>(r, t) rej. reject_if_inconsistent ir C (env_get env r) t rej reason2) zs
                    (if b2 then reject_if_inconsistent ir C V R
                                 (if b1 then reject C t1 rej reason1 else rej) reason3
                     else (if b1 then reject C t1 rej reason1 else rej))))"
      by (rule adder_compose [OF adder_compose [OF a1 a2] a3])
    then show ?thesis .
  qed
  have "candidate_adder C (\<lambda>rej. process_general_invocation ir C insn env rej)"
    unfolding process_general_invocation_def Let_def
    by (intro adder_if adder_fail adder_and_then body)
  then show ?thesis .
qed


lemma adder_reject_types: "candidate_adder C (\<lambda>rej. Inr (reject_types C V rej reason))"
  by (simp add: reject_types_eq adder_return)

lemma adder_process_direct_invocation:
  "candidate_adder C (process_direct_invocation ir C insn env)"
proof -
  have "candidate_adder C (\<lambda>rej. process_direct_invocation ir C insn env rej)"
    unfolding process_direct_invocation_def Let_def
    by (intro adder_if adder_fail adder_and_then adder_process_general_invocation)
  then show ?thesis .
qed

lemma adder_process_static_invocation:
  "candidate_adder C (process_static_invocation ir C insn env)"
proof -
  have "candidate_adder C (\<lambda>rej. process_static_invocation ir C insn env rej)"
    unfolding process_static_invocation_def Let_def
    by (intro adder_if adder_fail adder_and_then adder_id adder_process_general_invocation)
  then show ?thesis .
qed

lemma adder_process_virtual_invocation:
  "candidate_adder C (process_virtual_invocation ir C insn env)"
proof -
  have two: "candidate_adder C
      (\<lambda>rej. Inr (reject_set C ys (reject_set C xs rej r1) r2))" for xs ys r1 r2
    by (rule adder_compose [OF adder_reject_set adder_reject_set])
  have "candidate_adder C (\<lambda>rej. process_virtual_invocation ir C insn env rej)"
    unfolding process_virtual_invocation_def Let_def
    by (intro adder_if adder_fail adder_and_then adder_id two adder_reject_set
        adder_process_general_invocation)
  then show ?thesis .
qed

lemma adder_process_return_object:
  "candidate_adder C (process_return_object ir C m_method insn env)"
proof -
  have "candidate_adder C (\<lambda>rej. process_return_object ir C m_method insn env rej)"
    unfolding process_return_object_def Let_def
    by (intro adder_if adder_fail adder_and_then adder_reject_if_inconsistent)
  then show ?thesis .
qed

lemma adder_process_isput_object:
  "candidate_adder C (process_isput_object ir C insn env)"
proof -
  have "candidate_adder C (\<lambda>rej. process_isput_object ir C insn env rej)"
    unfolding process_isput_object_def Let_def
    by (intro adder_if adder_fail adder_and_then adder_reject_if_inconsistent)
  then show ?thesis .
qed

lemma adder_process_aput_object:
  "candidate_adder C (process_aput_object ir C insn env)"
proof -
  have two: "candidate_adder C
      (\<lambda>rej. Inr (reject_set C ys (reject_types C V rej r1) r2))" for V ys r1 r2
    by (rule adder_compose [OF adder_reject_types adder_reject_set])
  have "candidate_adder C (\<lambda>rej. process_aput_object ir C insn env rej)"
    unfolding process_aput_object_def Let_def
    by (intro adder_if adder_fail adder_and_then adder_id two adder_reject_if_inconsistent)
  then show ?thesis .
qed

lemma adder_process_instruction:
  "candidate_adder C (process_instruction ir C m_method insn env)"
proof -
  have "candidate_adder C (\<lambda>rej. process_instruction ir C m_method insn env rej)"
    unfolding process_instruction_def
    by (cases "opcode insn")
       (simp_all add: adder_id adder_fail adder_and_then adder_if adder_reject
          adder_reject_if_inconsistent adder_process_general_invocation
          adder_process_direct_invocation adder_process_static_invocation
          adder_process_virtual_invocation adder_process_return_object
          adder_process_aput_object adder_process_isput_object)
  then show ?thesis .
qed

lemma adder_run_block: "candidate_adder C (run_block ir C m_method insns env)"
proof (induction insns arbitrary: env)
  case Nil
  have "run_block ir C m_method [] env = (\<lambda>rej. Inr rej)"
    by (rule ext) simp
  then show ?case by (simp add: adder_id)
next
  case (Cons insn rest)
  have "run_block ir C m_method (insn # rest) env =
        (\<lambda>rej. and_then (analyze_instruction ir insn env) (\<lambda>env'.
           and_then (process_instruction ir C m_method insn env' rej)
             (run_block ir C m_method rest env')))"
    by (rule ext) simp
  moreover have "candidate_adder C
        (\<lambda>rej. and_then (analyze_instruction ir insn env) (\<lambda>env'.
           and_then (process_instruction ir C m_method insn env' rej)
             (run_block ir C m_method rest env')))"
    by (rule adder_and_then, rule adder_bind, rule adder_process_instruction, rule Cons.IH)
  ultimately show ?case by simp
qed

lemma adder_for_each:
  assumes "\<And>x. candidate_adder C (f x)"
  shows "candidate_adder C (for_each f xs)"
proof (induction xs)
  case Nil
  have "for_each f [] = (\<lambda>rej. Inr rej)"
    by (rule ext) simp
  then show ?case by (simp add: adder_id)
next
  case (Cons x xs)
  have "for_each f (x # xs) = (\<lambda>rej. and_then (f x rej) (for_each f xs))"
    by (rule ext) simp
  moreover have "candidate_adder C (\<lambda>rej. and_then (f x rej) (for_each f xs))"
    by (rule adder_bind, rule assms, rule Cons.IH)
  ultimately show ?case by simp
qed

lemma adder_run: "candidate_adder C (run ir C m_method get_entry_state_at blocks)"
proof -
  have step: "candidate_adder C
      (case x of (b, block) \<Rightarrow> \<lambda>rej.
         let env = get_entry_state_at b
         in if is_bottom env then Inr rej else run_block ir C m_method block env rej)"
    for x :: "nat \<times> IRInstruction list"
  proof (cases x)
    case (Pair b block)
    show ?thesis
      unfolding Pair Let_def prod.case
      by (rule adder_if, rule adder_id, rule adder_run_block)
  qed
  have "run ir C m_method get_entry_state_at blocks =
        for_each (\<lambda>(b, block) rej.
                 let env = get_entry_state_at b
                 in if is_bottom env then Inr rej
                    else run_block ir C m_method block env rej)
          (zip [0 ..< length blocks] blocks)"
    by (rule ext) (simp add: run_def)
  then show ?thesis
    using adder_for_each [of C _ "zip [0 ..< length blocks] blocks", OF step] by simp
qed

lemma adder_analyze_method: "candidate_adder C (analyze_method ir engine C m)"
proof -
  have "candidate_adder C (\<lambda>rej. analyze_method ir engine C m rej)"
    unfolding analyze_method_def
    by (rule adder_and_then) (cases "get_code m"; simp add: adder_fail adder_run)
  then show ?thesis .
qed

section \<open>The driver: pre-filters, invariants and the order of the classes\<close>

text \<open>The definitions that evaluating the pass on a concrete program unfolds.\<close>

lemmas eval_defs = dex_ir_def dex_is_array_def enum_class_def plain_insn_def const_class_def
  rstate_default_def rstate_kept_def static_void_method_def entry_block_engine_def class_E_def class_X_def
  reject_unsafe_enums_def analysis_phase_def final_prune_def walk_fields_def walk_methods_def
  method_step_def method_prefilter_def field_step_def is_generated_enum_method_def need_analyze_def
  strip_array_def analyze_method_def run_def gen_env_def analyze_instruction_def process_instruction_def
  and_then_def is_clinit_def is_init_def is_enum_values_def is_enum_valueof_def is_static_method_on_enum_class_def
  proto_gather_types_def can_rename_method_def can_rename_field_def rstate_can_rename_def allowshrinking_def allowobfuscation_def
  env_default_def EnumTypes_of_def EnumTypes_default_def is_invoke_def dests_size_def dest_def src_def get_type_def get_field_def get_method_def
  has_method_def has_type_def srcs_size_def reject_def

lemma field_step_eq:
  "field_step ir f s = s\<lparr>rejected := rejected s \<union> field_rejections ir (candidates s) f\<rparr>"
  by (auto simp: field_step_def field_rejections_def insert_absorb split: option.splits)

lemma fold_field_step:
  "fold (field_step ir) fs s =
     s\<lparr>rejected := rejected s \<union> (\<Union>f \<in> set fs. field_rejections ir (candidates s) f)\<rparr>"
proof (induction fs arbitrary: s)
  case Nil
  then show ?case by simp
next
  case (Cons f fs)
  have "fold (field_step ir) (f # fs) s = fold (field_step ir) fs (field_step ir f s)"
    by simp
  also have "\<dots> = (field_step ir f s)\<lparr>rejected := rejected (field_step ir f s) \<union>
        (\<Union>g \<in> set fs. field_rejections ir (candidates (field_step ir f s)) g)\<rparr>"
    by (rule Cons.IH)
  also have "\<dots> = s\<lparr>rejected := rejected s \<union>
        (\<Union>f \<in> set (f # fs). field_rejections ir (candidates s) f)\<rparr>"
    by (simp add: field_step_eq Un_assoc)
  finally show ?case .
qed

lemma fold_prefilter:
  "fold (\<lambda>t s.
           case strip_array ir t of
             None \<Rightarrow> s
           | Some type \<Rightarrow>
               if type \<in> candidates s \<and> type \<notin> rejected s
               then (if \<not> can_rename_method m
                     then s\<lparr>rejected := insert type (rejected s)\<rparr>
                     else s)
               else s) ts s =
     s\<lparr>rejected := rejected s \<union>
          (if can_rename_method m then {}
           else {t \<in> candidates s. \<exists>ty \<in> set ts. strip_array ir ty = Some t})\<rparr>"
proof (induction ts arbitrary: s)
  case Nil
  then show ?case by simp
next
  case (Cons t ts)
  show ?case
  proof (cases "can_rename_method m")
    case True
    then show ?thesis by (simp add: Cons.IH split: option.splits)
  next
    case False
    then show ?thesis
      by (auto simp: Cons.IH split: option.splits intro!: arg_cong [of _ _ "\<lambda>r. s\<lparr>rejected := r\<rparr>"])
  qed
qed

lemma method_prefilter_eq:
  "method_prefilter ir m s =
     s\<lparr>rejected := rejected s \<union>
          (if can_rename_method m then {} else proto_candidates ir (candidates s) m)\<rparr>"
  unfolding method_prefilter_def proto_candidates_def by (rule fold_prefilter)

lemma need_analyze_eq:
  "need_analyze ir m C rej = (get_code m \<noteq> None \<and> \<not> gathered_candidates ir C m \<subseteq> rej)"
  by (cases "get_code m")
     (auto simp: need_analyze_def gathered_candidates_def list_ex_iff split: option.splits)

text \<open>
  The pre-filter of lines 568 to 582 reads the types of the proto only: a kept method
  whose instruction names the candidate \<open>LE;\<close> leaves \<open>LE;\<close> unrejected, in the
  pre-filter, in the whole step of the method and in the whole pass. So the statement
  that the pre-filter gathers the types named by the proto and by the instructions does
  not hold; \<^verbatim>\<open>method->gather_types\<close> is only read by \<open>need_analyze\<close>.
\<close>

theorem method_prefilter_instruction_types_counterexample:
  "\<not> can_rename_method kept_reader \<and>
   ''LE;'' \<in> set (proto_gather_types (get_proto kept_reader) @ method_gather_types kept_reader) \<and>
   strip_array dex_ir ''LE;'' = Some ''LE;'' \<and>
   ''LE;'' \<in> candidates \<lparr>candidates = {''LE;''}, rejected = {}\<rparr> \<and>
   ''LE;'' \<notin> rejected \<lparr>candidates = {''LE;''}, rejected = {}\<rparr> \<and>
   ''LE;'' \<notin> rejected (method_prefilter dex_ir kept_reader \<lparr>candidates = {''LE;''}, rejected = {}\<rparr>) \<and>
   method_step dex_ir entry_block_engine kept_reader \<lparr>candidates = {''LE;''}, rejected = {}\<rparr> =
     Inr \<lparr>candidates = {''LE;''}, rejected = {}\<rparr> \<and>
   reject_unsafe_enums dex_ir entry_block_engine
     [\<lparr>is_enum = False, get_fields = [], get_methods = [kept_reader]\<rparr>] {''LE;''} = Inr {''LE;''}"
  by (simp add: kept_reader_def sget_object_def eval_defs)

text \<open>
  Claim C4, as the code has it. The pre-filter of a method gathers the types named by the
  proto of the method (its argument types and its return type). Every such type, reduced
  to \<^verbatim>\<open>get_array_type\<close> of it when it is an array, that is a candidate is added to the
  rejected set when the method cannot be renamed; nothing is added when it can; the
  candidate set is left alone. The step of a method that is not skipped as generated runs
  this pre-filter first and the analysis, if needed, on its result.
\<close>

theorem method_prefilter_proto_types:
  "candidates (method_prefilter ir m s) = candidates s \<and>
   rejected (method_prefilter ir m s) =
     rejected s \<union>
     (if can_rename_method m then {}
      else {t \<in> candidates s.
              \<exists>ty \<in> set (get_args (get_proto m) @ [get_rtype (get_proto m)]).
                 strip_array ir ty = Some t}) \<and>
   (\<not> is_generated_enum_method ir s m \<longrightarrow>
      method_step ir engine m s =
        (if need_analyze ir m (candidates s) (rejected (method_prefilter ir m s))
         then and_then
                (analyze_method ir engine (candidates s) m (rejected (method_prefilter ir m s)))
                (\<lambda>rej. Inr (s\<lparr>rejected := rej\<rparr>))
         else Inr (method_prefilter ir m s)))"
proof (intro conjI impI)
  show "candidates (method_prefilter ir m s) = candidates s"
    by (simp add: method_prefilter_eq)
  show "rejected (method_prefilter ir m s) =
     rejected s \<union>
     (if can_rename_method m then {}
      else {t \<in> candidates s.
              \<exists>ty \<in> set (get_args (get_proto m) @ [get_rtype (get_proto m)]).
                 strip_array ir ty = Some t})"
    by (simp add: method_prefilter_eq proto_candidates_def proto_gather_types_def)
  assume "\<not> is_generated_enum_method ir s m"
  then show "method_step ir engine m s =
        (if need_analyze ir m (candidates s) (rejected (method_prefilter ir m s))
         then and_then
                (analyze_method ir engine (candidates s) m (rejected (method_prefilter ir m s)))
                (\<lambda>rej. Inr (s\<lparr>rejected := rej\<rparr>))
         else Inr (method_prefilter ir m s))"
    by (simp add: method_step_def Let_def method_prefilter_eq)
qed

theorem method_prefilter_proto_types_witness:
  "rejected (method_prefilter dex_ir kept_proto_method
       \<lparr>candidates = {''LE;'', ''LF;'', ''LG;''}, rejected = {}\<rparr>) = {''LF;''} \<and>
   method_step dex_ir entry_block_engine kept_proto_method
       \<lparr>candidates = {''LE;'', ''LF;'', ''LG;''}, rejected = {}\<rparr> =
     Inr \<lparr>candidates = {''LE;'', ''LF;'', ''LG;''}, rejected = {''LF;''}\<rparr>"
proof -
  let ?s = "\<lparr>candidates = {''LE;'', ''LF;'', ''LG;''}, rejected = {}\<rparr>"
  note t = method_prefilter_proto_types [of dex_ir kept_proto_method ?s entry_block_engine]
  have r: "rejected (method_prefilter dex_ir kept_proto_method ?s) = {''LF;''}"
    using t [THEN conjunct2, THEN conjunct1]
    by (auto simp: kept_proto_method_def eval_defs)
  have g: "\<not> is_generated_enum_method dex_ir ?s kept_proto_method"
    by (simp add: kept_proto_method_def eval_defs)
  have n: "\<not> need_analyze dex_ir kept_proto_method (candidates ?s)
              (rejected (method_prefilter dex_ir kept_proto_method ?s))"
    by (simp add: need_analyze_def kept_proto_method_def)
  have p: "method_prefilter dex_ir kept_proto_method ?s =
           \<lparr>candidates = {''LE;'', ''LF;'', ''LG;''}, rejected = {''LF;''}\<rparr>"
    using r t [THEN conjunct1] by (cases "method_prefilter dex_ir kept_proto_method ?s") simp
  from t [THEN conjunct2, THEN conjunct2, rule_format, OF g] n p r show ?thesis
    by simp
qed

lemma method_step_invariant:
  assumes "method_step ir engine m s = Inr s'"
  shows "candidates s' = candidates s \<and> rejected s \<subseteq> rejected s' \<and>
         rejected s' \<subseteq> rejected s \<union> candidates s"
proof (cases "is_generated_enum_method ir s m")
  case True
  with assms show ?thesis by (simp add: method_step_def)
next
  case False
  let ?s1 = "method_prefilter ir m s"
  have c1: "candidates ?s1 = candidates s"
    by (simp add: method_prefilter_eq)
  have r1: "rejected s \<subseteq> rejected ?s1" "rejected ?s1 \<subseteq> rejected s \<union> candidates s"
    by (auto simp: method_prefilter_eq proto_candidates_def)
  show ?thesis
  proof (cases "need_analyze ir m (candidates ?s1) (rejected ?s1)")
    case no: False
    with False assms have "s' = ?s1" by (simp add: method_step_def Let_def)
    with c1 r1 show ?thesis by simp
  next
    case yes: True
    with False assms obtain rej where
      a: "analyze_method ir engine (candidates ?s1) m (rejected ?s1) = Inr rej"
      and s': "s' = ?s1\<lparr>rejected := rej\<rparr>"
      by (cases "analyze_method ir engine (candidates ?s1) m (rejected ?s1)")
         (auto simp: method_step_def Let_def and_then_def)
    from adder_apply [OF adder_analyze_method a]
    have "rejected ?s1 \<subseteq> rej" "rej \<subseteq> rejected ?s1 \<union> candidates ?s1" by simp_all
    with c1 r1 s' show ?thesis by auto
  qed
qed

lemma for_each_method_step_invariant:
  "for_each (method_step ir engine) ms s = Inr s' \<Longrightarrow>
   candidates s' = candidates s \<and> rejected s \<subseteq> rejected s' \<and>
   rejected s' \<subseteq> rejected s \<union> candidates s"
proof (induction ms arbitrary: s)
  case Nil
  then show ?case by simp
next
  case (Cons m ms)
  from Cons.prems obtain s1 where
    1: "method_step ir engine m s = Inr s1" and 2: "for_each (method_step ir engine) ms s1 = Inr s'"
    by (cases "method_step ir engine m s") (auto simp: and_then_def)
  from method_step_invariant [OF 1] Cons.IH [OF 2] show ?case by auto
qed

lemma field_walk_invariant:
  "candidates (fold (field_step ir) fs s) = candidates s \<and>
   rejected s \<subseteq> rejected (fold (field_step ir) fs s) \<and>
   rejected (fold (field_step ir) fs s) \<subseteq> rejected s \<union> candidates s"
  by (auto simp: fold_field_step field_rejections_def split: if_splits option.splits)

text \<open>
  Claim C7. Every step of the field walk and of the method walk leaves the candidate set
  as it was, only enlarges the rejected set, and enlarges it by candidates only. So when
  the walks end without abort the candidate set is the initial one, the rejected set is a
  subset of it, and the result of the pass is the candidate set minus the rejected set,
  subtracted once, at the end.
\<close>

theorem candidates_fixed_rejected_within:
  "(\<forall>f s. candidates (field_step ir f s) = candidates s \<and>
          rejected s \<subseteq> rejected (field_step ir f s) \<and>
          rejected (field_step ir f s) \<subseteq> rejected s \<union> candidates s) \<and>
   (\<forall>m s s'. method_step ir engine m s = Inr s' \<longrightarrow>
          candidates s' = candidates s \<and> rejected s \<subseteq> rejected s' \<and>
          rejected s' \<subseteq> rejected s \<union> candidates s) \<and>
   (\<forall>s. analysis_phase ir engine classes C = Inr s \<longrightarrow>
          candidates s = C \<and> rejected s \<subseteq> C \<and>
          reject_unsafe_enums ir engine classes C = Inr (C - rejected s))"
proof (intro conjI allI impI)
  fix f s
  from field_walk_invariant [of ir "[f]" s]
  show "candidates (field_step ir f s) = candidates s"
    and "rejected s \<subseteq> rejected (field_step ir f s)"
    and "rejected (field_step ir f s) \<subseteq> rejected s \<union> candidates s"
    by simp_all
next
  fix m s s'
  assume "method_step ir engine m s = Inr s'"
  from method_step_invariant [OF this]
  show "candidates s' = candidates s" and "rejected s \<subseteq> rejected s'"
    and "rejected s' \<subseteq> rejected s \<union> candidates s"
    by simp_all
next
  fix s
  assume a: "analysis_phase ir engine classes C = Inr s"
  let ?s0 = "\<lparr>candidates = C, rejected = {}\<rparr>"
  let ?s1 = "fold (field_step ir) (walk_fields classes) ?s0"
  from a have "for_each (method_step ir engine) (walk_methods classes) ?s1 = Inr s"
    by (simp add: analysis_phase_def Let_def)
  from for_each_method_step_invariant [OF this] field_walk_invariant [of ir "walk_fields classes" ?s0]
  show "candidates s = C" and "rejected s \<subseteq> C"
    by auto
  then show "reject_unsafe_enums ir engine classes C = Inr (C - rejected s)"
    using a by (simp add: reject_unsafe_enums_def and_then_def final_prune_def)
qed

theorem candidates_fixed_rejected_within_witness:
  "analysis_phase dex_ir entry_block_engine [class_X, class_E] {''LE;'', ''LF;''} =
     Inr \<lparr>candidates = {''LE;'', ''LF;''}, rejected = {''LE;'', ''LF;''}\<rparr> \<and>
   reject_unsafe_enums dex_ir entry_block_engine [class_X, class_E] {''LE;'', ''LF;''} =
     Inr ({''LE;'', ''LF;''} - {''LE;'', ''LF;''})"
proof -
  have a: "analysis_phase dex_ir entry_block_engine [class_X, class_E] {''LE;'', ''LF;''} =
     Inr \<lparr>candidates = {''LE;'', ''LF;''}, rejected = {''LE;'', ''LF;''}\<rparr>"
    by (simp add: eval_defs insert_commute)
  from candidates_fixed_rejected_within
    [of dex_ir entry_block_engine "[class_X, class_E]" "{''LE;'', ''LF;''}",
      THEN conjunct2, THEN conjunct2, rule_format, OF a]
  have "reject_unsafe_enums dex_ir entry_block_engine [class_X, class_E] {''LE;'', ''LF;''} =
     Inr ({''LE;'', ''LF;''} -
          rejected \<lparr>candidates = {''LE;'', ''LF;''}, rejected = {''LE;'', ''LF;''}\<rparr>)"
    by blast
  with a show ?thesis by simp
qed

text \<open>
  Claim C10. For a method without code \<open>need_analyze\<close> is false, so the step of the
  method is the skip of a generated method or the pre-filter alone: it does not depend on
  the engine, no control-flow graph is read and the detector is not run. The only types
  it can add to the rejected set are the candidates of the proto of a method that cannot
  be renamed.
\<close>

theorem codeless_method_only_prefilter:
  assumes "get_code m = None"
  shows "method_step ir engine m s =
           Inr (if is_generated_enum_method ir s m then s else method_prefilter ir m s) \<and>
         method_step ir engine m s = method_step ir engine' m s \<and>
         (\<forall>s'. method_step ir engine m s = Inr s' \<longrightarrow>
            candidates s' = candidates s \<and>
            rejected s' \<subseteq> rejected s \<union>
              {t \<in> candidates s. \<not> can_rename_method m \<and>
                 (\<exists>ty \<in> set (proto_gather_types (get_proto m)). strip_array ir ty = Some t)})"
proof -
  have na: "\<not> need_analyze ir m C rej" for C rej
    using assms by (simp add: need_analyze_def)
  have ms: "method_step ir e m s =
            Inr (if is_generated_enum_method ir s m then s else method_prefilter ir m s)" for e
    by (simp add: method_step_def Let_def na)
  have sub: "candidates (method_prefilter ir m s) = candidates s \<and>
             rejected (method_prefilter ir m s) \<subseteq> rejected s \<union>
               {t \<in> candidates s. \<not> can_rename_method m \<and>
                 (\<exists>ty \<in> set (proto_gather_types (get_proto m)). strip_array ir ty = Some t)}"
    by (auto simp: method_prefilter_eq proto_candidates_def)
  show ?thesis
    unfolding ms using sub by auto
qed

theorem codeless_method_only_prefilter_witness:
  "method_step dex_ir entry_block_engine kept_proto_method
     \<lparr>candidates = {''LE;'', ''LF;'', ''LG;''}, rejected = {}\<rparr> =
   Inr \<lparr>candidates = {''LE;'', ''LF;'', ''LG;''}, rejected = {''LF;''}\<rparr>"
proof -
  have c: "get_code kept_proto_method = None"
    by (simp add: kept_proto_method_def)
  from codeless_method_only_prefilter [OF c, of dex_ir entry_block_engine
      "\<lparr>candidates = {''LE;'', ''LF;'', ''LG;''}, rejected = {}\<rparr>" entry_block_engine]
  show ?thesis
    by (simp add: kept_proto_method_def eval_defs)
qed

lemma set_params_no_assert: "set_params ps env \<noteq> Inl AssertionFailure"
proof (induction ps arbitrary: env)
  case Nil
  then show ?case by simp
next
  case (Cons p ps)
  obtain insn t where p: "p = (insn, t)" by (cases p)
  show ?case
    unfolding p using Cons.IH
    by (cases "insn_dest insn") (simp_all add: dest_def and_then_def)
qed

lemma for_each_abort:
  "for_each f before s0 = Inr s \<Longrightarrow> f x s = Inl e \<Longrightarrow>
   for_each f (before @ x # after) s0 = Inl e"
proof (induction before arbitrary: s0)
  case Nil
  then show ?case by (simp add: and_then_def)
next
  case (Cons b before)
  from Cons.prems(1) obtain s1 where 1: "f b s0 = Inr s1" and 2: "for_each f before s1 = Inr s"
    by (cases "f b s0") (auto simp: and_then_def)
  from Cons.IH [OF 2 Cons.prems(2)] 1 show ?case by (simp add: and_then_def)
qed

text \<open>
  Claim C8. For a method with code, \<open>gen_env\<close> fails its assertion exactly when the
  number of load-param instructions differs from the number of argument types plus one
  for a non-static method. On a mismatch the analysis of the method aborts, and the whole
  pass aborts with the assertion, once the walk reaches the method and has to analyse it;
  no candidate set is returned.
\<close>

theorem load_param_count_asserted:
  assumes "get_code m = Some code"
  shows "(gen_env ir m = Inl AssertionFailure) =
           (length (get_param_instructions code) \<noteq>
            length (get_args (get_proto m)) + (if is_static m then 0 else 1)) \<and>
         (length (get_param_instructions code) \<noteq>
            length (get_args (get_proto m)) + (if is_static m then 0 else 1) \<longrightarrow>
          analyze_method ir engine C m rej = Inl AssertionFailure \<and>
          (\<forall>before after s.
             walk_methods classes = before @ m # after \<longrightarrow>
             for_each (method_step ir engine) before
               (fold (field_step ir) (walk_fields classes) \<lparr>candidates = C, rejected = {}\<rparr>) = Inr s \<longrightarrow>
             \<not> is_generated_enum_method ir s m \<longrightarrow>
             need_analyze ir m (candidates (method_prefilter ir m s))
               (rejected (method_prefilter ir m s)) \<longrightarrow>
             reject_unsafe_enums ir engine classes C = Inl AssertionFailure))"
proof (intro conjI impI allI)
  show "(gen_env ir m = Inl AssertionFailure) =
           (length (get_param_instructions code) \<noteq>
            length (get_args (get_proto m)) + (if is_static m then 0 else 1))"
    using assms set_params_no_assert
    by (auto simp: gen_env_def Let_def)
next
  assume mm: "length (get_param_instructions code) \<noteq>
            length (get_args (get_proto m)) + (if is_static m then 0 else 1)"
  have g: "gen_env ir m = Inl AssertionFailure"
    using assms mm by (auto simp: gen_env_def Let_def)
  show am: "analyze_method ir engine C m rej = Inl AssertionFailure" for C rej
    by (simp add: analyze_method_def g and_then_def)
  fix before after s
  assume w: "walk_methods classes = before @ m # after"
    and pre: "for_each (method_step ir engine) before
               (fold (field_step ir) (walk_fields classes) \<lparr>candidates = C, rejected = {}\<rparr>) = Inr s"
    and ng: "\<not> is_generated_enum_method ir s m"
    and na: "need_analyze ir m (candidates (method_prefilter ir m s))
               (rejected (method_prefilter ir m s))"
  have "method_step ir engine m s = Inl AssertionFailure"
    using ng na by (simp add: method_step_def Let_def am and_then_def)
  from for_each_abort [OF pre this, of after]
  have "analysis_phase ir engine classes C = Inl AssertionFailure"
    by (simp add: analysis_phase_def Let_def w)
  then show "reject_unsafe_enums ir engine classes C = Inl AssertionFailure"
    by (simp add: reject_unsafe_enums_def and_then_def)
qed

theorem load_param_count_asserted_witness:
  "gen_env dex_ir nonstatic_no_params = Inl AssertionFailure \<and>
   reject_unsafe_enums dex_ir entry_block_engine
     [\<lparr>is_enum = False, get_fields = [], get_methods = [nonstatic_no_params]\<rparr>] {''LE;''} =
   Inl AssertionFailure"
proof -
  let ?code = "\<lparr>get_param_instructions = [], cfg_blocks = [[const_class ''LE;'']]\<rparr>"
  have c: "get_code nonstatic_no_params = Some ?code"
    by (simp add: nonstatic_no_params_def static_void_method_def)
  have mm: "length (get_param_instructions ?code) \<noteq>
            length (get_args (get_proto nonstatic_no_params)) +
            (if is_static nonstatic_no_params then 0 else 1)"
    by (simp add: nonstatic_no_params_def static_void_method_def)
  note t = load_param_count_asserted [OF c, of dex_ir entry_block_engine "{''LE;''}" "{}"
      "[\<lparr>is_enum = False, get_fields = [], get_methods = [nonstatic_no_params]\<rparr>]"]
  from t mm have 1: "gen_env dex_ir nonstatic_no_params = Inl AssertionFailure"
    by blast
  from t mm have "\<forall>before after s.
             walk_methods [\<lparr>is_enum = False, get_fields = [], get_methods = [nonstatic_no_params]\<rparr>]
               = before @ nonstatic_no_params # after \<longrightarrow>
             for_each (method_step dex_ir entry_block_engine) before
               (fold (field_step dex_ir)
                  (walk_fields [\<lparr>is_enum = False, get_fields = [], get_methods = [nonstatic_no_params]\<rparr>])
                  \<lparr>candidates = {''LE;''}, rejected = {}\<rparr>) = Inr s \<longrightarrow>
             \<not> is_generated_enum_method dex_ir s nonstatic_no_params \<longrightarrow>
             need_analyze dex_ir nonstatic_no_params
               (candidates (method_prefilter dex_ir nonstatic_no_params s))
               (rejected (method_prefilter dex_ir nonstatic_no_params s)) \<longrightarrow>
             reject_unsafe_enums dex_ir entry_block_engine
               [\<lparr>is_enum = False, get_fields = [], get_methods = [nonstatic_no_params]\<rparr>] {''LE;''} =
             Inl AssertionFailure"
    by blast
  from this [rule_format, of "[]" "[]" "\<lparr>candidates = {''LE;''}, rejected = {}\<rparr>"]
  have 2: "reject_unsafe_enums dex_ir entry_block_engine
     [\<lparr>is_enum = False, get_fields = [], get_methods = [nonstatic_no_params]\<rparr>] {''LE;''} =
     Inl AssertionFailure"
    by (simp add: nonstatic_no_params_def eval_defs)
  from 1 2 show ?thesis by simp
qed

lemma proto_candidates_subset_gathered:
  "proto_candidates ir C m \<subseteq> gathered_candidates ir C m"
  by (auto simp: proto_candidates_def gathered_candidates_def)

lemma method_step_closed:
  assumes g: "method_class m \<in> C \<and> generated_shape ir m \<longrightarrow>
                gathered_candidates ir C m \<subseteq> {method_class m}"
    and an: "\<not> (method_class m \<in> C \<and> generated_shape ir m) \<and> get_code m \<noteq> None \<and>
             gathered_candidates ir C m \<noteq> {} \<longrightarrow>
               (\<exists>D. analyze_method ir engine C m {} = Inr D \<and> D \<subseteq> gathered_candidates ir C m)"
    and cs: "candidates s = C"
  shows "method_step ir engine m s =
           Inr (s\<lparr>rejected := rejected s \<union> method_rejections ir engine C m\<rparr>)"
proof -
  let ?P = "if can_rename_method m then {} else proto_candidates ir C m"
  let ?G = "gathered_candidates ir C m"
  let ?s1 = "method_prefilter ir m s"
  have s1: "?s1 = s\<lparr>rejected := rejected s \<union> ?P\<rparr>"
    by (simp add: method_prefilter_eq cs)
  have c1: "candidates ?s1 = C" and r1: "rejected ?s1 = rejected s \<union> ?P"
    by (simp_all add: s1 cs)
  have PG: "?P \<subseteq> ?G"
    using proto_candidates_subset_gathered [of ir C m] by simp
  have skip: "method_step ir engine m s = Inr ?s1" if "?G \<subseteq> rejected ?s1 \<or> get_code m = None"
    and "\<not> is_generated_enum_method ir s m"
  proof -
    from that(1) have "\<not> need_analyze ir m C (rejected ?s1)"
      by (auto simp: need_analyze_eq)
    with that(2) show ?thesis
      by (simp add: method_step_def Let_def c1)
  qed
  show ?thesis
  proof (cases "method_class m \<in> C \<and> generated_shape ir m")
    case True
    then have mr: "method_rejections ir engine C m = {}"
      by (simp add: method_rejections_def)
    show ?thesis
    proof (cases "method_class m \<in> rejected s")
      case False
      with True cs have "is_generated_enum_method ir s m"
        by (simp add: is_generated_enum_method_def generated_shape_def)
      then show ?thesis
        by (simp add: method_step_def mr)
    next
      case in_rej: True
      then have gen: "\<not> is_generated_enum_method ir s m"
        by (simp add: is_generated_enum_method_def)
      from g True have G: "?G \<subseteq> {method_class m}" by simp
      with in_rej have Gr: "?G \<subseteq> rejected s" by blast
      with PG have e: "rejected s \<union> ?P = rejected s" by blast
      have "?G \<subseteq> rejected ?s1" unfolding r1 using Gr by blast
      then have "method_step ir engine m s = Inr ?s1"
        using gen by (intro skip) simp_all
      then show ?thesis
        by (simp only: s1 e mr Un_empty_right)
    qed
  next
    case False
    then have gen: "\<not> is_generated_enum_method ir s m"
      by (auto simp: is_generated_enum_method_def generated_shape_def cs)
    have mr0: "method_rejections ir engine C m =
        ?P \<union> (if get_code m = None \<or> ?G = {} then {}
              else (case analyze_method ir engine C m {} of Inl e \<Rightarrow> {} | Inr d \<Rightarrow> d))"
      unfolding method_rejections_def using False by (simp only: if_False)
    show ?thesis
    proof (cases "get_code m = None \<or> ?G = {}")
      case True
      then have mr: "method_rejections ir engine C m = ?P"
        unfolding mr0 by simp
      from True have "?G \<subseteq> rejected ?s1 \<or> get_code m = None" by auto
      then have "method_step ir engine m s = Inr ?s1"
        using gen by (rule skip)
      then show ?thesis by (simp only: s1 mr)
    next
      case nontrivial: False
      with False an obtain D where D: "analyze_method ir engine C m {} = Inr D"
        and DG: "D \<subseteq> ?G"
        by auto
      have mr: "method_rejections ir engine C m = ?P \<union> D"
        unfolding mr0 using nontrivial D by auto
      have fr: "analyze_method ir engine C m rej = Inr (rej \<union> D)" for rej
        by (rule adder_frame [OF adder_analyze_method D])
      show ?thesis
      proof (cases "need_analyze ir m C (rejected ?s1)")
        case True
        with gen have "method_step ir engine m s = Inr (?s1\<lparr>rejected := rejected ?s1 \<union> D\<rparr>)"
          by (simp add: method_step_def Let_def c1 fr and_then_def)
        then show ?thesis
          by (simp add: s1 mr Un_assoc)
      next
        case nope: False
        then have sub: "?G \<subseteq> rejected ?s1"
          using nontrivial by (auto simp: need_analyze_eq)
        with DG have "D \<subseteq> rejected s \<union> ?P"
          unfolding r1 by blast
        then have e: "rejected s \<union> (?P \<union> D) = rejected s \<union> ?P"
          by blast
        from sub have "method_step ir engine m s = Inr ?s1"
          using gen by (intro skip) simp_all
        then show ?thesis
          by (simp only: s1 mr e)
      qed
    qed
  qed
qed

lemma for_each_method_step_closed:
  assumes "\<forall>m \<in> set ms. method_class m \<in> C \<and> generated_shape ir m \<longrightarrow>
                gathered_candidates ir C m \<subseteq> {method_class m}"
    and "\<forall>m \<in> set ms. \<not> (method_class m \<in> C \<and> generated_shape ir m) \<and>
             get_code m \<noteq> None \<and> gathered_candidates ir C m \<noteq> {} \<longrightarrow>
               (\<exists>D. analyze_method ir engine C m {} = Inr D \<and> D \<subseteq> gathered_candidates ir C m)"
    and "candidates s = C"
  shows "for_each (method_step ir engine) ms s =
           Inr (s\<lparr>rejected := rejected s \<union> (\<Union>m \<in> set ms. method_rejections ir engine C m)\<rparr>)"
  using assms
proof (induction ms arbitrary: s)
  case Nil
  then show ?case by simp
next
  case (Cons a ms)
  let ?s1 = "s\<lparr>rejected := rejected s \<union> method_rejections ir engine C a\<rparr>"
  have 1: "method_step ir engine a s = Inr ?s1"
    by (rule method_step_closed) (use Cons.prems in simp_all)
  have "for_each (method_step ir engine) ms ?s1 =
        Inr (?s1\<lparr>rejected := rejected ?s1 \<union> (\<Union>m \<in> set ms. method_rejections ir engine C m)\<rparr>)"
    by (rule Cons.IH) (use Cons.prems in simp_all)
  with 1 show ?case
    by (simp add: and_then_def Un_assoc)
qed

lemma reject_unsafe_enums_closed:
  assumes "\<forall>m \<in> set (walk_methods classes).
             method_class m \<in> C \<and> generated_shape ir m \<longrightarrow>
               gathered_candidates ir C m \<subseteq> {method_class m}"
    and "\<forall>m \<in> set (walk_methods classes).
           \<not> (method_class m \<in> C \<and> generated_shape ir m) \<and>
           get_code m \<noteq> None \<and> gathered_candidates ir C m \<noteq> {} \<longrightarrow>
             (\<exists>D. analyze_method ir engine C m {} = Inr D \<and> D \<subseteq> gathered_candidates ir C m)"
  shows "reject_unsafe_enums ir engine classes C =
           Inr (C - ((\<Union>f \<in> set (walk_fields classes). field_rejections ir C f) \<union>
                     (\<Union>m \<in> set (walk_methods classes). method_rejections ir engine C m)))"
proof -
  let ?s0 = "\<lparr>candidates = C, rejected = {}\<rparr>"
  let ?F = "\<Union>f \<in> set (walk_fields classes). field_rejections ir C f"
  let ?s1 = "fold (field_step ir) (walk_fields classes) ?s0"
  have s1: "?s1 = \<lparr>candidates = C, rejected = ?F\<rparr>"
    by (simp add: fold_field_step)
  have "for_each (method_step ir engine) (walk_methods classes) \<lparr>candidates = C, rejected = ?F\<rparr> =
        Inr (\<lparr>candidates = C, rejected = ?F\<rparr>\<lparr>rejected :=
               rejected \<lparr>candidates = C, rejected = ?F\<rparr> \<union>
               (\<Union>m \<in> set (walk_methods classes). method_rejections ir engine C m)\<rparr>)"
    by (rule for_each_method_step_closed [OF assms]) simp
  then show ?thesis
    by (simp add: reject_unsafe_enums_def analysis_phase_def Let_def s1 and_then_def
        final_prune_def)
qed

lemma walks_of_permutation:
  assumes "mset classes' = mset classes"
  shows "set (walk_methods classes') = set (walk_methods classes)"
    and "set (walk_fields classes') = set (walk_fields classes)"
proof -
  from assms have "set classes' = set classes" by (rule mset_eq_setD)
  then show "set (walk_methods classes') = set (walk_methods classes)"
    and "set (walk_fields classes') = set (walk_fields classes)"
    by (simp_all add: walk_methods_def walk_fields_def)
qed

text \<open>
  The order of the classes matters. The skip of a generated enum method asks whether the
  class of the method is already rejected. With the classes \<open>X, E\<close> the method of \<open>X\<close>
  rejects \<open>E\<close> first, so the static initialiser of \<open>E\<close> is analysed and rejects \<open>F\<close>;
  with \<open>E, X\<close> the static initialiser is skipped and \<open>F\<close> stays a candidate.
\<close>

theorem class_order_counterexample:
  "mset [class_E, class_X] = mset [class_X, class_E] \<and>
   reject_unsafe_enums dex_ir entry_block_engine [class_X, class_E] {''LE;'', ''LF;''} = Inr {} \<and>
   reject_unsafe_enums dex_ir entry_block_engine [class_E, class_X] {''LE;'', ''LF;''} =
     Inr {''LF;''}"
proof (intro conjI)
  show "mset [class_E, class_X] = mset [class_X, class_E]"
    by (simp add: add_mset_commute)
  show "reject_unsafe_enums dex_ir entry_block_engine [class_X, class_E] {''LE;'', ''LF;''} = Inr {}"
    by (simp add: eval_defs)
  show "reject_unsafe_enums dex_ir entry_block_engine [class_E, class_X] {''LE;'', ''LF;''} =
     Inr {''LF;''}"
    by (simp add: eval_defs)
qed

text \<open>
  The second reading of the rejected set is in \<open>need_analyze\<close>: a method is analysed
  only while one of the candidates it gathers is not yet rejected. The instance method
  of \<open>E\<close> above gathers \<open>F\<close> only, and its analysis rejects \<open>E\<close>, the type of \<open>this\<close>.
  After a method that rejects \<open>F\<close> it is not analysed and \<open>E\<close> stays; before it, \<open>E\<close>
  is rejected. No method of the two classes has the shape of a generated enum method.
\<close>

lemma need_analyze_order_dependence:
  "reject_unsafe_enums dex_ir entry_block_engine [class_X_reads_F, class_E_upcasting]
     {''LE;'', ''LF;''} = Inr {''LE;''} \<and>
   reject_unsafe_enums dex_ir entry_block_engine [class_E_upcasting, class_X_reads_F]
     {''LE;'', ''LF;''} = Inr {}"
  by (auto simp: class_X_reads_F_def class_E_upcasting_def upcasting_method_def
      load_param_object_def return_object_def process_return_object_def
      reject_if_inconsistent_eq eval_defs)

text \<open>
  Claim C3, as the code has it. Take a program in which every method with the shape of a
  generated enum method (\<open><clinit>\<close>, \<open><init>\<close>, \<open>values()\<close>, \<open>valueOf(String)\<close>) in a
  candidate class gathers no candidate but its own class, and in which the analysis of
  every other method that has code and gathers a candidate, started from the empty
  rejected set, ends without abort and rejects only candidates that the method gathers.
  Then every permutation of the list of classes yields the same final candidate set: the
  initial set minus the union of what each field and each method rejects on its own.
  Nothing is asked of a method without code or of a method that gathers no candidate.
\<close>

theorem class_order_independence:
  assumes "\<forall>m \<in> set (walk_methods classes).
             method_class m \<in> C \<and> generated_shape ir m \<longrightarrow>
               gathered_candidates ir C m \<subseteq> {method_class m}"
    and "\<forall>m \<in> set (walk_methods classes).
           \<not> (method_class m \<in> C \<and> generated_shape ir m) \<and>
           get_code m \<noteq> None \<and> gathered_candidates ir C m \<noteq> {} \<longrightarrow>
             (\<exists>D. analyze_method ir engine C m {} = Inr D \<and> D \<subseteq> gathered_candidates ir C m)"
    and "mset classes' = mset classes"
  shows "reject_unsafe_enums ir engine classes' C = reject_unsafe_enums ir engine classes C \<and>
         reject_unsafe_enums ir engine classes C =
           Inr (C - ((\<Union>f \<in> set (walk_fields classes). field_rejections ir C f) \<union>
                     (\<Union>m \<in> set (walk_methods classes). method_rejections ir engine C m)))"
proof -
  note w = walks_of_permutation [OF assms(3)]
  have 1: "reject_unsafe_enums ir engine classes C =
           Inr (C - ((\<Union>f \<in> set (walk_fields classes). field_rejections ir C f) \<union>
                     (\<Union>m \<in> set (walk_methods classes). method_rejections ir engine C m)))"
    by (rule reject_unsafe_enums_closed [OF assms(1,2)])
  have 2: "reject_unsafe_enums ir engine classes' C =
           Inr (C - ((\<Union>f \<in> set (walk_fields classes'). field_rejections ir C f) \<union>
                     (\<Union>m \<in> set (walk_methods classes'). method_rejections ir engine C m)))"
    by (rule reject_unsafe_enums_closed) (use assms(1,2) in \<open>simp_all only: w\<close>)
  show ?thesis
    using 1 2 by (simp only: w simp_thms)
qed

theorem class_order_independence_witness:
  "reject_unsafe_enums dex_ir entry_block_engine [class_Z, class_G, class_Y, class_X]
     {''LE;'', ''LF;'', ''LG;''} =
   reject_unsafe_enums dex_ir entry_block_engine [class_X, class_Y, class_G, class_Z]
     {''LE;'', ''LF;'', ''LG;''} \<and>
   reject_unsafe_enums dex_ir entry_block_engine [class_X, class_Y, class_G, class_Z]
     {''LE;'', ''LF;'', ''LG;''} = Inr {''LG;''} \<and>
   generated_shape dex_ir values_G \<and>
   analyze_method dex_ir entry_block_engine {''LE;'', ''LF;'', ''LG;''} null_returning_method {} =
     Inl AssertionFailure"
proof -
  let ?C = "{''LE;'', ''LF;'', ''LG;''}"
  let ?m = "static_void_method ''LX;'' ''m'' [const_class ''LE;''] [''LE;'']"
  let ?clinit = "static_void_method ''LG;'' ''<clinit>'' [new_instance ''LG;''] [''LG;'']"
  have ms: "walk_methods [class_X, class_Y, class_G, class_Z] =
              [?m, kept_proto_method, ?clinit, values_G, null_returning_method]"
    by (simp add: walk_methods_def class_X_def class_Y_def class_G_def class_Z_def)
  have g1: "gathered_candidates dex_ir ?C ?clinit \<subseteq> {''LG;''}"
    by (auto simp: gathered_candidates_def eval_defs)
  have g2: "gathered_candidates dex_ir ?C values_G \<subseteq> {''LG;''}"
    by (auto simp: gathered_candidates_def values_G_def eval_defs)
  have g3: "gathered_candidates dex_ir ?C null_returning_method = {}"
    by (auto simp: gathered_candidates_def null_returning_method_def eval_defs)
  have sh: "generated_shape dex_ir values_G"
    by (simp add: generated_shape_def values_G_def eval_defs)
  have cls: "method_class ?m = ''LX;''" "method_class kept_proto_method = ''LY;''"
    "method_class ?clinit = ''LG;''" "method_class values_G = ''LG;''"
    "method_class null_returning_method = ''LZ;''"
    by (simp_all add: static_void_method_def kept_proto_method_def values_G_def
        null_returning_method_def)
  have shc: "generated_shape dex_ir ?clinit"
    by (simp add: generated_shape_def is_clinit_def static_void_method_def)
  have a: "\<forall>m \<in> set (walk_methods [class_X, class_Y, class_G, class_Z]).
             method_class m \<in> ?C \<and> generated_shape dex_ir m \<longrightarrow>
               gathered_candidates dex_ir ?C m \<subseteq> {method_class m}"
    unfolding ms using g1 g2 by (simp add: cls)
  have am: "analyze_method dex_ir entry_block_engine ?C ?m {} = Inr {''LE;''}"
    by (simp add: eval_defs)
  have gc: "{''LE;''} \<subseteq> gathered_candidates dex_ir ?C ?m"
    by (simp add: gathered_candidates_def eval_defs)
  have h1: "\<exists>D. analyze_method dex_ir entry_block_engine ?C ?m {} = Inr D \<and>
                D \<subseteq> gathered_candidates dex_ir ?C ?m"
    using am gc by blast
  have h2: "get_code kept_proto_method = None"
    by (simp add: kept_proto_method_def)
  have b: "\<forall>m \<in> set (walk_methods [class_X, class_Y, class_G, class_Z]).
           \<not> (method_class m \<in> ?C \<and> generated_shape dex_ir m) \<and>
           get_code m \<noteq> None \<and> gathered_candidates dex_ir ?C m \<noteq> {} \<longrightarrow>
             (\<exists>D. analyze_method dex_ir entry_block_engine ?C m {} = Inr D \<and>
                  D \<subseteq> gathered_candidates dex_ir ?C m)"
    unfolding ms using h1 h2 g3 sh shc by (simp add: cls)
  have p: "mset [class_Z, class_G, class_Y, class_X] = mset [class_X, class_Y, class_G, class_Z]"
    by (simp add: add_mset_commute)
  have v: "reject_unsafe_enums dex_ir entry_block_engine [class_X, class_Y, class_G, class_Z] ?C =
           Inr {''LG;''}"
    by (simp add: class_Y_def class_G_def class_Z_def values_G_def null_returning_method_def
        kept_proto_method_def new_instance_def sget_values_G_def const_zero_def
        return_object_def eval_defs)
  have n: "analyze_method dex_ir entry_block_engine ?C null_returning_method {} =
           Inl AssertionFailure"
    by (simp add: null_returning_method_def const_zero_def return_object_def
        process_return_object_def eval_defs)
  from class_order_independence [OF a b p, THEN conjunct1] v sh n show ?thesis
    by simp
qed

end
